theory Spec2Isabelle
  imports Main "HOL-Library.Sublist"
begin

section \<open>Server actions of the car marketplace (src/actions/cars.js)\<close>

text \<open>
  The server actions are asynchronous JavaScript functions that call external
  collaborators: the identity provider, the relational store (Prisma), the object
  storage (Supabase), the generative-AI provider, the admission check (Arcjet) and
  the console. The embedding makes each of them explicit:
  \<^item> what a collaborator answers is read from an \<open>env\<close> record (an oracle per call);
  \<^item> what an action changes is a \<open>state\<close> record, taken and returned: the rows of the
    store, the calls made to the object storage, the console, the number of requests sent
    to the AI provider, the revalidated routes;
  \<^item> a thrown error is \<open>Inl\<close> of a sum, a returned value is \<open>Inr\<close>;
  \<^item> the tagged objects \<open>{success: true, data}\<close> and \<open>{success: false, error}\<close> are
    the datatype \<open>result\<close>.
  Strings are lists of 8-bit characters. The failures modelled are the ones the source
  tests for or the ones its \<open>try\<close> blocks are written for: a missing identity, a missing
  local user, an upload that reports an error, a payload that is missing, a removal
  that reports an error or throws, an image URL that does not parse, a primary-key
  conflict, an update of a missing row, a denied admission, a missing API key, an AI
  request that throws, a response that is not JSON. Reads of the relational store are
  taken to succeed.
\<close>

subsection \<open>Errors, results, console\<close>

datatype error_name = Error | TypeError | ReferenceError | SyntaxError

datatype js_error = JsError (err_name: error_name) (message: string)

text \<open>\<open>{success: true, data: d}\<close> is \<open>Success d\<close> (with \<open>d = ()\<close> when the object has no
  \<open>data\<close>), \<open>{success: false, error: m}\<close> is \<open>Failure m\<close>.\<close>

datatype 'a result = Success 'a | Failure string

text \<open>An argument of a console call: a string, an error object, or the object
  \<open>{code: "RATE_LIMIT_EXCEDDED", details: {remaining, resetInSeconds}}\<close>.\<close>

datatype log_arg = Str string | Err js_error | RateLimitExceeded nat nat

datatype log_entry = ConsoleError "log_arg list" | ConsoleWarn "log_arg list" | ConsoleLog "log_arg list"

text \<open>\<open>new Error(msg, x)\<close> with a string \<open>x\<close>: the second parameter of the constructor is
  an options object, of which only \<open>cause\<close> is read; a string there is ignored.\<close>

definition new_Error_options :: "string \<Rightarrow> string \<Rightarrow> js_error" where
  "new_Error_options msg opts = JsError Error msg"

subsection \<open>Rows of the store\<close>

text \<open>The field \<open>make\<close> of the source is \<open>car_make\<close> here, \<open>id\<close> is \<open>car_id\<close>.\<close>

record car_data =
  car_make :: string
  model :: string
  year :: int
  price :: int
  mileage :: int
  color :: string
  fuelType :: string
  transmission :: string
  bodyType :: string
  seats :: int
  description :: string
  status :: string
  featured :: bool

record car = car_data +
  car_id :: string
  images :: "string list"
  createdAt :: nat

subsection \<open>JSON values\<close>

text \<open>The values that \<open>JSON.parse\<close> returns. A number is kept as the text that
  \<open>String\<close> gives for it.\<close>

datatype json =
    JNull
  | JBool bool
  | JNumber string
  | JString string
  | JArray "json list"
  | JObject "(string \<times> json) list"

subsection \<open>Collaborators and state\<close>

datatype deny_reason = RateLimit nat nat | OtherReason

datatype decision = Allowed | Denied deny_reason

datatype prompt = FullListingPrompt | SearchHintPrompt

record image_file =
  file_bytes :: string
  file_type :: string

datatype storage_call = Upload string string string | Remove "string list"

record env =
  auth_userId :: "string option"
  next_uuid :: string
  date_now :: "nat \<Rightarrow> nat"
  db_now :: nat
  supabase_url :: "string option"
  upload_error :: "string \<Rightarrow> string option"
  url_pathname :: "string \<Rightarrow> string option"
  storage_remove :: "string list \<Rightarrow> js_error + string option"
  protect :: decision
  gemini_api_key :: "string option"
  generateContent :: "image_file \<Rightarrow> prompt \<Rightarrow> js_error + string"
  JSON_parse :: "string \<Rightarrow> js_error + json"

text \<open>
  \<^item> \<open>auth_userId\<close>: the \<open>userId\<close> of \<open>auth()\<close>; \<open>None\<close> when there is no session.
  \<^item> \<open>next_uuid\<close>: the value of \<open>uuidv4()\<close>.
  \<^item> \<open>date_now i\<close>: the value of \<open>Date.now()\<close> in the iteration of index \<open>i\<close>;
    \<open>db_now\<close>: the creation time the store gives a new row.
  \<^item> \<open>supabase_url\<close>: \<open>process.env.NEXT_PUBLIC_SUPABASE_URL\<close>.
  \<^item> \<open>upload_error p\<close>: the \<open>error.message\<close> of the upload to the path \<open>p\<close>, \<open>None\<close>
    when the upload succeeds.
  \<^item> \<open>url_pathname u\<close>: the \<open>pathname\<close> of \<open>new URL(u)\<close>, \<open>None\<close> when the constructor
    throws.
  \<^item> \<open>storage_remove ps\<close>: the batch removal, which throws (\<open>Inl\<close>), reports an error
    (\<open>Inr (Some m)\<close>) or succeeds (\<open>Inr None\<close>).
  \<^item> \<open>protect\<close>: the decision of \<open>aj.protect(req, {requested: 1})\<close>.
  \<^item> \<open>gemini_api_key\<close>: \<open>process.env.GEMINI_API_KEY\<close>.
  \<^item> \<open>generateContent f p\<close>: the text of the provider's response, or the error it throws.
  \<^item> \<open>JSON_parse\<close>: \<open>JSON.parse\<close>, which throws a SyntaxError on a text that is not JSON.
\<close>

record state =
  users :: "string list"
  cars :: "car list"
  storage_calls :: "storage_call list"
  console :: "log_entry list"
  ai_calls :: nat
  revalidated :: "string list"

text \<open>\<open>users\<close> holds the \<open>clerkUserId\<close> of every row of the user table.\<close>

definition console_add :: "log_entry \<Rightarrow> state \<Rightarrow> state" where
  "console_add l s = s\<lparr>console := console s @ [l]\<rparr>"

definition revalidatePath :: "string \<Rightarrow> state \<Rightarrow> state" where
  "revalidatePath p s = s\<lparr>revalidated := revalidated s @ [p]\<rparr>"

text \<open>\<open>!x\<close> for a value that is a string or undefined.\<close>

definition falsy :: "string option \<Rightarrow> bool" where
  "falsy x = (case x of None \<Rightarrow> True | Some v \<Rightarrow> v = [])"

text \<open>A value inside a template literal.\<close>

definition template_str :: "string option \<Rightarrow> string" where
  "template_str x = (case x of None \<Rightarrow> ''undefined'' | Some v \<Rightarrow> v)"

definition digit_char :: "nat \<Rightarrow> char" where
  "digit_char n = ''0123456789'' ! (n mod 10)"

function string_of_nat :: "nat \<Rightarrow> string" where
  "string_of_nat n =
     (if n < 10 then [digit_char n] else string_of_nat (n div 10) @ [digit_char n])"
  by pat_completeness auto
termination
  by (relation "measure id") auto

subsection \<open>Fence stripping: \<open>text.replace(/```(?:json)?\n?/g, "").trim()\<close>\<close>

definition fence :: string where
  "fence = [CHR 0x60, CHR 0x60, CHR 0x60]"

definition skip_json :: "string \<Rightarrow> string" where
  "skip_json s = (if prefix ''json'' s then drop 4 s else s)"

definition skip_newline :: "string \<Rightarrow> string" where
  "skip_newline s = (case s of [] \<Rightarrow> [] | c # r \<Rightarrow> if c = CHR 0x0A then r else c # r)"

text \<open>The global replacement scans from the left; at a position where the three
  backquotes start, the match takes them, then \<open>json\<close> if it follows, then one newline if
  it follows (both optional groups are greedy and nothing follows them in the pattern),
  and the scan goes on after the match.\<close>

function replace_fences :: "string \<Rightarrow> string" where
  "replace_fences [] = []"
| "replace_fences (c # cs) =
     (if prefix fence (c # cs)
      then replace_fences (skip_newline (skip_json (drop 3 (c # cs))))
      else c # replace_fences cs)"
  by pat_completeness auto
termination
proof (relation "measure length")
  fix c :: char and cs :: string
  have a: "length (skip_newline s) \<le> length s" for s
    by (simp add: skip_newline_def split: list.splits)
  have b: "length (skip_json s) \<le> length s" for s
    by (simp add: skip_json_def)
  have "length (skip_newline (skip_json (drop 3 (c # cs)))) \<le> length (drop 3 (c # cs))"
    using a b le_trans by blast
  then show "(skip_newline (skip_json (drop 3 (c # cs))), c # cs) \<in> measure length"
    by simp
qed simp_all

text \<open>The white space and line terminators of \<open>trim\<close> that are 8-bit characters.\<close>

definition is_whitespace :: "char \<Rightarrow> bool" where
  "is_whitespace c \<longleftrightarrow>
     c \<in> set [CHR 0x09, CHR 0x0A, CHR 0x0B, CHR 0x0C, CHR 0x0D, CHR 0x20, CHR 0xA0]"

definition trim :: "string \<Rightarrow> string" where
  "trim s = rev (dropWhile is_whitespace (rev (dropWhile is_whitespace s)))"

definition cleanText :: "string \<Rightarrow> string" where
  "cleanText t = trim (replace_fences t)"

fun has_fence :: "string \<Rightarrow> bool" where
  "has_fence [] = False"
| "has_fence (c # cs) = (prefix fence (c # cs) \<or> has_fence cs)"


subsection \<open>addCar\<close>

text \<open>\<open>base64Data.split(",")[1]\<close>: the part between the first and the second comma,
  undefined (\<open>None\<close>) when the string has no comma.\<close>

definition split_comma_1 :: "string \<Rightarrow> string option" where
  "split_comma_1 b =
     (if CHR '','' \<in> set b
      then Some (takeWhile (\<lambda>c. c \<noteq> CHR '','') (tl (dropWhile (\<lambda>c. c \<noteq> CHR '','') b)))
      else None)"

text \<open>\<open>Buffer.from(x, "base64")\<close> throws a TypeError on undefined; on a string it never
  throws. The decoded bytes are kept as the base64 text they are decoded from.\<close>

definition Buffer_from :: "string option \<Rightarrow> js_error + string" where
  "Buffer_from x =
     (case x of
        None \<Rightarrow> Inl (JsError TypeError
          ''The first argument must be of type string or an instance of Buffer, ArrayBuffer, or Array or an Array-like Object. Received undefined'')
      | Some b \<Rightarrow> Inr b)"

definition is_alnum :: "char \<Rightarrow> bool" where
  "is_alnum c \<longleftrightarrow>
     c \<in> set ''abcdefghijklmnopqrstuvwxyzABCDEFGHIJKLMNOPQRSTUVWXYZ0123456789''"

text \<open>\<open>base64Data.match(/data:image\/([a-zA-Z0-9]+);/)\<close>: the first position where the
  pattern matches, and the group there. The group is greedy and is followed by \<open>;\<close>, so
  at a position the pattern matches exactly when the longest run of letters and digits
  after \<open>data:image/\<close> is not empty and is followed by \<open>;\<close>.\<close>

fun mimeMatch :: "string \<Rightarrow> string option" where
  "mimeMatch [] = None"
| "mimeMatch (c # cs) =
     (if prefix ''data:image/'' (c # cs)
         \<and> takeWhile is_alnum (drop 11 (c # cs)) \<noteq> []
         \<and> prefix '';'' (dropWhile is_alnum (drop 11 (c # cs)))
      then Some (takeWhile is_alnum (drop 11 (c # cs)))
      else mimeMatch cs)"

definition fileExtension :: "string \<Rightarrow> string" where
  "fileExtension b = (case mimeMatch b of Some ext \<Rightarrow> ext | None \<Rightarrow> ''jpeg'')"

definition filePath :: "env \<Rightarrow> string \<Rightarrow> nat \<Rightarrow> string \<Rightarrow> string" where
  "filePath e folderPath i b =
     folderPath @ ''/'' @ ''image-'' @ string_of_nat (date_now e i) @ ''-'' @ string_of_nat i
       @ ''.'' @ fileExtension b"

definition publicUrl :: "env \<Rightarrow> string \<Rightarrow> string" where
  "publicUrl e path =
     template_str (supabase_url e) @ ''/storage/v1/object/public/car-images/'' @ path"

text \<open>The \<open>for\<close> loop of \<open>addCar\<close> over \<open>images\<close> (the image ingestion), from the
  index \<open>i\<close> on, with \<open>imageUrls\<close> collected so far. An entry that is empty or does
  not start with \<open>data:image/\<close> is skipped with a warning. For the others the payload
  is decoded, the upload is called, and its error, if any, is thrown. The parameter
  \<open>images\<close> of \<open>addCar\<close> is \<open>imgs\<close> below, \<open>images\<close> being the field of the row.\<close>

fun ingest :: "env \<Rightarrow> string \<Rightarrow> nat \<Rightarrow> string list \<Rightarrow> string list \<Rightarrow> state
    \<Rightarrow> (js_error + string list) \<times> state" where
  "ingest e folderPath i [] imageUrls s = (Inr imageUrls, s)"
| "ingest e folderPath i (base64Data # rest) imageUrls s =
     (if base64Data = [] \<or> \<not> prefix ''data:image/'' base64Data
      then ingest e folderPath (Suc i) rest imageUrls
             (console_add (ConsoleWarn [Str ''Skipping invalid image data'']) s)
      else
        (case Buffer_from (split_comma_1 base64Data) of
           Inl err \<Rightarrow> (Inl err, s)
         | Inr imageBuffer \<Rightarrow>
             (let path = filePath e folderPath i base64Data;
                  s1 = s\<lparr>storage_calls := storage_calls s
                          @ [Upload path imageBuffer (''image/'' @ fileExtension base64Data)]\<rparr>
              in case upload_error e path of
                   Some msg \<Rightarrow>
                     (Inl (JsError Error (''Failed to upload image: '' @ msg)),
                      console_add (ConsoleError [Str ''Error uploading image:'', Str msg]) s1)
                 | None \<Rightarrow> ingest e folderPath (Suc i) rest (imageUrls @ [publicUrl e path]) s1)))"

text \<open>\<open>db.car.create\<close>: the identifier is the primary key of the table.\<close>

definition db_car_create :: "car \<Rightarrow> state \<Rightarrow> js_error + state" where
  "db_car_create c s =
     (if car_id c \<in> set (map car_id (cars s))
      then Inl (JsError Error ''Unique constraint failed on the fields: (id)'')
      else Inr (s\<lparr>cars := cars s @ [c]\<rparr>))"

text \<open>The identity check that opens \<open>addCar\<close>, \<open>deleteCar\<close> and \<open>updateCarStatus\<close>:
  \<open>auth()\<close>, then the lookup of the local user.\<close>

definition identity_check :: "env \<Rightarrow> state \<Rightarrow> js_error + string" where
  "identity_check e s =
     (if falsy (auth_userId e) then Inl (JsError Error ''Unauthorized!'')
      else if the (auth_userId e) \<notin> set (users s) then Inl (JsError Error ''User not found'')
      else Inr (the (auth_userId e)))"

definition new_car :: "env \<Rightarrow> car_data \<Rightarrow> string list \<Rightarrow> car" where
  "new_car e carData imageUrls =
     car_data.extend carData
       (car.fields (next_uuid e) imageUrls (db_now e))"

text \<open>The body of the \<open>try\<close> block of \<open>addCar\<close>.\<close>

definition addCar_try :: "env \<Rightarrow> car_data \<Rightarrow> string list \<Rightarrow> state
    \<Rightarrow> (js_error + unit result) \<times> state" where
  "addCar_try e carData imgs s =
     (case identity_check e s of
        Inl err \<Rightarrow> (Inl err, s)
      | Inr user \<Rightarrow>
          (case ingest e (''cars/'' @ next_uuid e) 0 imgs [] s of
             (Inl err, s1) \<Rightarrow> (Inl err, s1)
           | (Inr imageUrls, s1) \<Rightarrow>
               if length imageUrls = 0
               then (Inl (JsError Error ''No valid images were uploaded''), s1)
               else (case db_car_create (new_car e carData imageUrls) s1 of
                       Inl err \<Rightarrow> (Inl err, s1)
                     | Inr s2 \<Rightarrow> (Inr (Success ()), revalidatePath ''/admin/cars'' s2))))"

text \<open>The \<open>catch\<close> of \<open>addCar\<close> throws a new error: \<open>"Error adding car:" + error.message\<close>.\<close>

definition addCar :: "env \<Rightarrow> car_data \<Rightarrow> string list \<Rightarrow> state
    \<Rightarrow> (js_error + unit result) \<times> state" where
  "addCar e carData imgs s =
     (case addCar_try e carData imgs s of
        (Inl err, s1) \<Rightarrow> (Inl (JsError Error (''Error adding car:'' @ message err)), s1)
      | (Inr r, s1) \<Rightarrow> (Inr r, s1))"


subsection \<open>deleteCar\<close>

definition db_car_findUnique :: "string \<Rightarrow> state \<Rightarrow> car option" where
  "db_car_findUnique i s = find (\<lambda>c. car_id c = i) (cars s)"

definition db_car_delete :: "string \<Rightarrow> state \<Rightarrow> state" where
  "db_car_delete i s = s\<lparr>cars := filter (\<lambda>c. car_id c \<noteq> i) (cars s)\<rparr>"

definition line_terminator :: "char \<Rightarrow> bool" where
  "line_terminator c \<longleftrightarrow> c = CHR 0x0A \<or> c = CHR 0x0D"

text \<open>\<open>pathname.match(/\/car-images\/(.*)/)\<close>: the group after the first
  \<open>/car-images/\<close>, up to the end of the line; \<open>None\<close> is \<open>null\<close>.\<close>

fun pathMatch :: "string \<Rightarrow> string option" where
  "pathMatch [] = None"
| "pathMatch (c # cs) =
     (if prefix ''/car-images/'' (c # cs)
      then Some (takeWhile (\<lambda>x. \<not> line_terminator x) (drop 12 (c # cs)))
      else pathMatch cs)"

text \<open>The callback of \<open>car.images.map\<close>; \<open>new URL\<close> throws on a string that is not a
  URL, which ends the \<open>map\<close>.\<close>

fun map_paths :: "env \<Rightarrow> string list \<Rightarrow> js_error + string option list" where
  "map_paths e [] = Inr []"
| "map_paths e (imageUrl # rest) =
     (case url_pathname e imageUrl of
        None \<Rightarrow> Inl (JsError TypeError ''Invalid URL'')
      | Some pathname \<Rightarrow>
          (case map_paths e rest of
             Inl err \<Rightarrow> Inl err
           | Inr ps \<Rightarrow> Inr (pathMatch pathname # ps)))"

text \<open>\<open>.filter(Boolean)\<close> drops \<open>null\<close> and the empty string.\<close>

definition filter_Boolean :: "string option list \<Rightarrow> string list" where
  "filter_Boolean ps = map the (filter (\<lambda>p. \<not> falsy p) ps)"

text \<open>The inner \<open>try\<close> of \<open>deleteCar\<close> with its \<open>catch\<close>: whatever the storage does, the
  block ends normally; only the console and the calls made differ.\<close>

definition delete_images :: "env \<Rightarrow> car \<Rightarrow> state \<Rightarrow> state" where
  "delete_images e c s =
     (case map_paths e (images c) of
        Inl storageError \<Rightarrow>
          console_add (ConsoleError [Str ''Error with storage operations:'', Err storageError]) s
      | Inr ps \<Rightarrow>
          (let filePaths = filter_Boolean ps in
           if length filePaths > 0
           then (let s1 = s\<lparr>storage_calls := storage_calls s @ [Remove filePaths]\<rparr>
                 in case storage_remove e filePaths of
                      Inl storageError \<Rightarrow>
                        console_add
                          (ConsoleError [Str ''Error with storage operations:'', Err storageError]) s1
                    | Inr (Some msg) \<Rightarrow>
                        console_add (ConsoleError [Str ''Error deleting images:'', Str msg]) s1
                    | Inr None \<Rightarrow> s1)
           else s))"

definition deleteCar_try :: "env \<Rightarrow> string \<Rightarrow> state \<Rightarrow> (js_error + unit result) \<times> state" where
  "deleteCar_try e i s =
     (case identity_check e s of
        Inl err \<Rightarrow> (Inl err, s)
      | Inr user \<Rightarrow>
          (case db_car_findUnique i s of
             None \<Rightarrow> (Inr (Failure ''Car not found''), s)
           | Some c \<Rightarrow>
               (Inr (Success ()),
                revalidatePath ''/admin/cars'' (delete_images e c (db_car_delete i s)))))"

text \<open>The \<open>catch\<close> of \<open>deleteCar\<close> logs the error and returns it tagged; the action
  never throws.\<close>

definition deleteCar :: "env \<Rightarrow> string \<Rightarrow> state \<Rightarrow> unit result \<times> state" where
  "deleteCar e i s =
     (case deleteCar_try e i s of
        (Inl err, s1) \<Rightarrow>
          (Failure (message err), console_add (ConsoleError [Str ''Error deleting car:'', Err err]) s1)
      | (Inr r, s1) \<Rightarrow> (r, s1))"

subsection \<open>updateCarStatus\<close>

text \<open>\<open>updateData\<close>: a field is present exactly when the argument is not undefined.\<close>

record updateData =
  upd_status :: "string option"
  upd_featured :: "bool option"

definition build_updateData :: "string option \<Rightarrow> bool option \<Rightarrow> updateData" where
  "build_updateData st ft =
     (let updateData = \<lparr>upd_status = None, upd_featured = None\<rparr>;
          updateData = (if st \<noteq> None then updateData\<lparr>upd_status := st\<rparr> else updateData);
          updateData = (if ft \<noteq> None then updateData\<lparr>upd_featured := ft\<rparr> else updateData)
      in updateData)"

definition apply_update :: "updateData \<Rightarrow> car \<Rightarrow> car" where
  "apply_update d c =
     (let c1 = (case upd_status d of None \<Rightarrow> c | Some v \<Rightarrow> c\<lparr>status := v\<rparr>)
      in (case upd_featured d of None \<Rightarrow> c1 | Some v \<Rightarrow> c1\<lparr>featured := v\<rparr>))"

text \<open>\<open>db.car.update\<close> sets the fields present in \<open>data\<close> on the row of the identifier
  and throws when there is no such row.\<close>

definition db_car_update :: "string \<Rightarrow> updateData \<Rightarrow> state \<Rightarrow> js_error + state" where
  "db_car_update i d s =
     (if i \<in> set (map car_id (cars s))
      then Inr (s\<lparr>cars := map (\<lambda>c. if car_id c = i then apply_update d c else c) (cars s)\<rparr>)
      else Inl (JsError Error ''Record to update not found.''))"

definition updateCarStatus_try :: "env \<Rightarrow> string \<Rightarrow> string option \<Rightarrow> bool option \<Rightarrow> state
    \<Rightarrow> (js_error + unit result) \<times> state" where
  "updateCarStatus_try e i st ft s =
     (case identity_check e s of
        Inl err \<Rightarrow> (Inl err, s)
      | Inr user \<Rightarrow>
          (case db_car_update i (build_updateData st ft) s of
             Inl err \<Rightarrow> (Inl err, s)
           | Inr s1 \<Rightarrow> (Inr (Success ()), revalidatePath ''/admin/cars'' s1)))"

definition updateCarStatus :: "env \<Rightarrow> string \<Rightarrow> string option \<Rightarrow> bool option \<Rightarrow> state
    \<Rightarrow> unit result \<times> state" where
  "updateCarStatus e i st ft s =
     (case updateCarStatus_try e i st ft s of
        (Inl err, s1) \<Rightarrow>
          (Failure (message err),
           console_add (ConsoleError [Str ''Error updating car status:'', Err err]) s1)
      | (Inr r, s1) \<Rightarrow> (r, s1))"

subsection \<open>getFeaturedCars\<close>

text \<open>\<open>db.car.findMany\<close> with \<open>where\<close>, \<open>orderBy: {createdAt: "desc"}\<close> and \<open>take\<close>: the
  rows that satisfy the filter, latest first, cut after \<open>take\<close> rows. \<open>limit\<close> is a
  count; \<open>None\<close> is the call without the argument, which takes the default 3.
  \<open>serializeCarData\<close> comes from \<open>@/lib/helper\<close>, which is not part of the sources at
  hand; it is the parameter \<open>serializeCarData\<close>.\<close>

definition orderBy_createdAt_desc :: "car list \<Rightarrow> car list" where
  "orderBy_createdAt_desc rows = rev (sort_key createdAt rows)"

definition findMany_featured :: "nat \<Rightarrow> state \<Rightarrow> car list" where
  "findMany_featured n s =
     take n (orderBy_createdAt_desc
       (filter (\<lambda>c. featured c = True \<and> status c = ''AVAILABLE'') (cars s)))"

definition getFeaturedCars :: "(car \<Rightarrow> 'a) \<Rightarrow> env \<Rightarrow> nat option \<Rightarrow> state \<Rightarrow> 'a list" where
  "getFeaturedCars serializeCarData e limit s =
     (let limit = (case limit of None \<Rightarrow> 3 | Some n \<Rightarrow> n)
      in map (\<lambda>c. serializeCarData c) (findMany_featured limit s))"

subsection \<open>processCarImageWithAI\<close>

definition requiredFields :: "string list" where
  "requiredFields =
     [''make'', ''model'', ''year'', ''color'', ''bodyType'', ''price'', ''mileage'',
      ''fuelType'', ''transmission'', ''description'', ''confidence'']"

text \<open>\<open>field in carDetails\<close> for a required field: on an object, whether the key is
  there (no required name is inherited from \<open>Object.prototype\<close>); on an array, false (no
  required name is an index, \<open>length\<close> or inherited); on \<open>null\<close>, a boolean, a number or a
  string, the operator throws a TypeError, whose message names the field and the
  value.\<close>

definition in_TypeError :: "string \<Rightarrow> string \<Rightarrow> js_error" where
  "in_TypeError f v =
     JsError TypeError
       (''Cannot use 'in' operator to search for '' @ [CHR 0x27] @ f @ [CHR 0x27]
          @ '' in '' @ v)"

fun field_in :: "string \<Rightarrow> json \<Rightarrow> js_error + bool" where
  "field_in f (JObject kvs) = Inr (f \<in> set (map fst kvs))"
| "field_in f (JArray vs) = Inr False"
| "field_in f JNull = Inl (in_TypeError f ''null'')"
| "field_in f (JBool b) = Inl (in_TypeError f (if b then ''true'' else ''false''))"
| "field_in f (JNumber n) = Inl (in_TypeError f n)"
| "field_in f (JString s) = Inl (in_TypeError f s)"

text \<open>\<open>requiredFields.filter((field) => !(field in carDetails))\<close>, from the left; an
  error of the callback ends the \<open>filter\<close>.\<close>

fun filter_missing :: "string list \<Rightarrow> json \<Rightarrow> js_error + string list" where
  "filter_missing [] v = Inr []"
| "filter_missing (f # fs) v =
     (case field_in f v of
        Inl err \<Rightarrow> Inl err
      | Inr present \<Rightarrow>
          (case filter_missing fs v of
             Inl err \<Rightarrow> Inl err
           | Inr ms \<Rightarrow> Inr (if \<not> present then f # ms else ms)))"

fun join_comma :: "string list \<Rightarrow> string" where
  "join_comma [] = []"
| "join_comma [x] = x"
| "join_comma (x # y # ys) = x @ '', '' @ join_comma (y # ys)"

text \<open>The inner \<open>try\<close> block: parse, then check the required fields.\<close>

definition parse_carDetails :: "env \<Rightarrow> string \<Rightarrow> js_error + json" where
  "parse_carDetails e cleanedText =
     (case JSON_parse e cleanedText of
        Inl err \<Rightarrow> Inl err
      | Inr carDetails \<Rightarrow>
          (case filter_missing requiredFields carDetails of
             Inl err \<Rightarrow> Inl err
           | Inr missingFields \<Rightarrow>
               if length missingFields > 0
               then Inl (JsError Error
                      (''AI response missing required fields: '' @ join_comma missingFields))
               else Inr carDetails))"

definition processCarImageWithAI_try :: "env \<Rightarrow> image_file \<Rightarrow> state
    \<Rightarrow> (js_error + json result) \<times> state" where
  "processCarImageWithAI_try e f s =
     (if falsy (gemini_api_key e)
      then (Inl (JsError Error ''Gemini API key is not configured''), s)
      else
        (let s1 = s\<lparr>ai_calls := Suc (ai_calls s)\<rparr>
         in case generateContent e f FullListingPrompt of
              Inl err \<Rightarrow> (Inl err, s1)
            | Inr text \<Rightarrow>
                (case parse_carDetails e (cleanText text) of
                   Inr carDetails \<Rightarrow> (Inr (Success carDetails), s1)
                 | Inl parseError \<Rightarrow>
                     (Inr (Failure ''Failed to parse AI response''),
                      console_add (ConsoleLog [Str ''Raw response:'', Str text])
                        (console_add
                           (ConsoleError [Str ''Failed to parse AI response:'', Err parseError])
                           s1)))))"

text \<open>The outer \<open>catch\<close>: \<open>console.error()\<close>, then
  \<open>throw new Error("Gemini API error:" + error.message)\<close>.\<close>

definition processCarImageWithAI :: "env \<Rightarrow> image_file \<Rightarrow> state
    \<Rightarrow> (js_error + json result) \<times> state" where
  "processCarImageWithAI e f s =
     (case processCarImageWithAI_try e f s of
        (Inl err, s1) \<Rightarrow>
          (Inl (JsError Error (''Gemini API error:'' @ message err)),
           console_add (ConsoleError []) s1)
      | (Inr r, s1) \<Rightarrow> (Inr r, s1))"

subsection \<open>processImageSearch\<close>

text \<open>The handler of the inner \<open>catch (error)\<close> starts with
  \<open>console.error("Failed to parse AI response:", parseError)\<close>. No binding of
  \<open>parseError\<close> is in scope there (the parameter of the handler is \<open>error\<close>), so
  evaluating the argument throws a ReferenceError and the \<open>return\<close> after it is not
  reached.\<close>

definition parse_catch_handler :: "js_error \<Rightarrow> js_error + json result" where
  "parse_catch_handler error = Inl (JsError ReferenceError ''parseError is not defined'')"

definition processImageSearch_try :: "env \<Rightarrow> image_file \<Rightarrow> state
    \<Rightarrow> (js_error + json result) \<times> state" where
  "processImageSearch_try e f s =
     (case protect e of
        Denied (RateLimit remaining reset) \<Rightarrow>
          (Inl (JsError Error ''Too many requests. Please try again later.''),
           console_add (ConsoleError [RateLimitExceeded remaining reset]) s)
      | Denied OtherReason \<Rightarrow> (Inl (JsError Error ''Request blocked''), s)
      | Allowed \<Rightarrow>
          if falsy (gemini_api_key e)
          then (Inl (JsError Error ''Gemini API key is not configured''), s)
          else
            (let s1 = s\<lparr>ai_calls := Suc (ai_calls s)\<rparr>
             in case generateContent e f SearchHintPrompt of
                  Inl err \<Rightarrow> (Inl err, s1)
                | Inr text \<Rightarrow>
                    (case JSON_parse e (cleanText text) of
                       Inr carDetails \<Rightarrow> (Inr (Success carDetails), s1)
                     | Inl error \<Rightarrow> (parse_catch_handler error, s1))))"

text \<open>The outer \<open>catch\<close>: \<open>throw new Error("AI search error:", error.message)\<close>, with a
  comma where \<open>processCarImageWithAI\<close> has \<open>+\<close>.\<close>

definition processImageSearch :: "env \<Rightarrow> image_file \<Rightarrow> state
    \<Rightarrow> (js_error + json result) \<times> state" where
  "processImageSearch e f s =
     (case processImageSearch_try e f s of
        (Inl err, s1) \<Rightarrow> (Inl (new_Error_options ''AI search error:'' (message err)), s1)
      | (Inr r, s1) \<Rightarrow> (Inr r, s1))"

subsection \<open>Vocabulary of the properties\<close>

text \<open>An entry of \<open>images\<close> is accepted by the loop when it starts with the prefix
  \<open>data:image/\<close> (the empty string does not).\<close>

definition accepted :: "string \<Rightarrow> bool" where
  "accepted b \<longleftrightarrow> prefix ''data:image/'' b"

text \<open>One public URL per accepted entry, in the order of the input: the entry at the
  index \<open>j\<close> gives the URL of the path built from \<open>j\<close> and from its extension.\<close>

definition public_urls_of :: "env \<Rightarrow> string \<Rightarrow> nat \<Rightarrow> string list \<Rightarrow> string list" where
  "public_urls_of e folderPath i imgs =
     map (\<lambda>(j, b). publicUrl e (filePath e folderPath j b))
       (filter (\<lambda>(j, b). accepted b) (enumerate i imgs))"

subsection \<open>A concrete environment and state\<close>

definition demo_env :: env where
  "demo_env =
     \<lparr>auth_userId = Some ''user_1'', next_uuid = ''u1'', date_now = (\<lambda>i. 1700 + i), db_now = 5,
      supabase_url = Some ''https://x.supabase.co'', upload_error = (\<lambda>p. None),
      url_pathname = (\<lambda>u. None), storage_remove = (\<lambda>ps. Inr None), protect = Allowed,
      gemini_api_key = Some ''k'', generateContent = (\<lambda>f p. Inr ''not json''),
      JSON_parse = (\<lambda>t. Inl (JsError SyntaxError ''Unexpected token''))\<rparr>"

definition demo_state :: state where
  "demo_state =
     \<lparr>users = [''user_1''], cars = [], storage_calls = [], console = [], ai_calls = 0,
      revalidated = []\<rparr>"

definition demo_data :: car_data where
  "demo_data =
     \<lparr>car_make = ''Toyota'', model = ''Corolla'', year = 2020, price = 10000, mileage = 5,
      color = ''red'', fuelType = ''Petrol'', transmission = ''Manual'', bodyType = ''Sedan'',
      seats = 5, description = ''d'', status = ''AVAILABLE'', featured = True\<rparr>"

text \<open>The image sequence of the example: a png, a string that is no image, a jpeg.\<close>

definition demo_images :: "string list" where
  "demo_images =
     [''data:image/png;base64,AAAA'', ''not-an-image'', ''data:image/jpeg;base64,BBBB'']"

text \<open>A parsed response has all the required keys when it is an object that has each of
  them; an array or a primitive value has none.\<close>

definition has_all_required :: "json \<Rightarrow> bool" where
  "has_all_required v =
     (case v of
        JObject kvs \<Rightarrow> list_all (\<lambda>f. f \<in> set (map fst kvs)) requiredFields
      | _ \<Rightarrow> False)"

text \<open>\<open>hay.includes(needle)\<close>.\<close>

fun str_includes :: "string \<Rightarrow> string \<Rightarrow> bool" where
  "str_includes [] needle = (needle = [])"
| "str_includes (c # cs) needle = (prefix needle (c # cs) \<or> str_includes cs needle)"

definition demo_file :: image_file where
  "demo_file = \<lparr>file_bytes = ''bytes'', file_type = ''image/png''\<rparr>"

text \<open>A response that is JSON and has only the key \<open>make\<close>.\<close>

definition incomplete_text :: string where
  \<open>incomplete_text = ''{"make": "Toyota"}''\<close>

definition incomplete_json :: json where
  "incomplete_json = JObject [(''make'', JString ''Toyota'')]"

definition incomplete_env :: env where
  "incomplete_env =
     demo_env\<lparr>generateContent := (\<lambda>f p. Inr incomplete_text),
              JSON_parse := (\<lambda>t. if t = incomplete_text then Inr incomplete_json
                                  else Inl (JsError SyntaxError ''Unexpected token''))\<rparr>"

text \<open>A row, and a state that holds it.\<close>

definition demo_car :: car where
  "demo_car =
     car_data.extend demo_data
       (car.fields ''c1''
          [''https://x.supabase.co/storage/v1/object/public/car-images/cars/c1/image-1-0.png'']
          1)"

definition stocked_state :: state where
  "stocked_state = demo_state\<lparr>cars := [demo_car]\<rparr>"

text \<open>An environment whose storage client throws on removal; the path name of a URL on
  the host \<open>https://x.supabase.co\<close> is what follows these 21 characters.\<close>

definition broken_storage_env :: env where
  "broken_storage_env =
     demo_env\<lparr>url_pathname := (\<lambda>u. Some (drop 21 u)),
              storage_remove := (\<lambda>ps. Inl (JsError Error ''fetch failed''))\<rparr>"

text \<open>Six rows: four featured and available, one sold, one not featured.\<close>

definition showroom_state :: state where
  "showroom_state =
     demo_state\<lparr>cars :=
       [demo_car\<lparr>car_id := ''a'', createdAt := 10\<rparr>,
        demo_car\<lparr>car_id := ''b'', createdAt := 40, status := ''SOLD''\<rparr>,
        demo_car\<lparr>car_id := ''c'', createdAt := 30\<rparr>,
        demo_car\<lparr>car_id := ''d'', createdAt := 50, featured := False\<rparr>,
        demo_car\<lparr>car_id := ''e'', createdAt := 20\<rparr>,
        demo_car\<lparr>car_id := ''f'', createdAt := 25\<rparr>]\<rparr>"

section \<open>Properties\<close>

subsection \<open>Fence stripping\<close>

lemma replace_no_leading_backtick:
  "\<not> prefix [CHR 0x60] s \<Longrightarrow> \<not> prefix [CHR 0x60] (replace_fences s)"
  by (cases s) (auto simp: fence_def)

lemma replace_fences_no_fence: "\<not> has_fence (replace_fences t)"
proof (induction t rule: replace_fences.induct)
  case 1
  show ?case by simp
next
  case (2 c cs)
  show ?case
  proof (cases "prefix fence (c # cs)")
    case True
    with 2 show ?thesis by simp
  next
    case False
    with 2 have ih: "\<not> has_fence (replace_fences cs)" by simp
    have "\<not> prefix fence (c # replace_fences cs)"
    proof (cases "c = CHR 0x60")
      case c: True
      show ?thesis
      proof (cases cs)
        case Nil
        then show ?thesis by (simp add: fence_def)
      next
        case (Cons d ds)
        show ?thesis
        proof (cases "d = CHR 0x60")
          case d: True
          from False c d Cons have nb: "\<not> prefix [CHR 0x60] ds"
            by (cases ds) (auto simp: fence_def)
          then have nf: "\<not> prefix fence (d # ds)"
            by (cases ds) (auto simp: fence_def)
          from nb have "\<not> prefix [CHR 0x60] (replace_fences ds)"
            by (rule replace_no_leading_backtick)
          with nf Cons show ?thesis
            by (cases "replace_fences ds") (auto simp: fence_def)
        next
          case d: False
          then have "\<not> prefix fence (d # ds)" by (simp add: fence_def)
          with Cons d show ?thesis by (simp add: fence_def)
        qed
      qed
    next
      case False
      then show ?thesis by (simp add: fence_def)
    qed
    with ih False show ?thesis by simp
  qed
qed

lemma replace_fences_id: "\<not> has_fence s \<Longrightarrow> replace_fences s = s"
  by (induction s) auto

lemma has_fence_append: "has_fence a \<Longrightarrow> has_fence (a @ b)"
proof (induction a)
  case Nil
  then show ?case by simp
next
  case (Cons x a)
  show ?case
  proof (cases "prefix fence (x # a)")
    case True
    then have "prefix fence ((x # a) @ b)" by (rule prefix_prefix)
    then show ?thesis by simp
  next
    case False
    with Cons show ?thesis by simp
  qed
qed

lemma has_fence_dropWhile: "has_fence (dropWhile P s) \<Longrightarrow> has_fence s"
  by (induction s) (auto split: if_splits)

lemma has_fence_trim: "has_fence (trim s) \<Longrightarrow> has_fence s"
proof -
  assume h: "has_fence (trim s)"
  let ?d = "dropWhile is_whitespace s"
  have "?d = rev (dropWhile is_whitespace (rev ?d)) @ rev (takeWhile is_whitespace (rev ?d))"
    by (metis rev_append rev_rev_ident takeWhile_dropWhile_id)
  then have "?d = trim s @ rev (takeWhile is_whitespace (rev ?d))"
    by (simp add: trim_def)
  with h have "has_fence ?d" by (metis has_fence_append)
  then show ?thesis by (rule has_fence_dropWhile)
qed

lemma dropWhile_rev_trimmed:
  "dropWhile P (rev (dropWhile P (rev (dropWhile P s)))) = rev (dropWhile P (rev (dropWhile P s)))"
proof -
  let ?d = "dropWhile P s"
  let ?r = "dropWhile P (rev ?d)"
  show ?thesis
  proof (cases "?r = []")
    case True
    have "dropWhile P (rev ?r) = rev ?r" unfolding True by simp
    then show ?thesis .
  next
    case False
    have split: "?d = rev ?r @ rev (takeWhile P (rev ?d))"
      by (metis rev_append rev_rev_ident takeWhile_dropWhile_id)
    from False have ne: "rev ?r \<noteq> []" by simp
    with split have "hd (rev ?r) = hd ?d"
      by (metis hd_append2)
    moreover from split ne have "?d \<noteq> []" by (metis append_is_Nil_conv)
    then have "\<not> P (hd ?d)" by (rule hd_dropWhile)
    ultimately have "\<not> P (hd (rev ?r))" by simp
    with ne show ?thesis by (cases "rev ?r") auto
  qed
qed

lemma trim_idem: "trim (trim s) = trim s"
  by (simp add: trim_def dropWhile_rev_trimmed dropWhile_idem)

lemma trim_newline: "trim (s @ [CHR 0x0A]) = trim s"
proof (cases "\<forall>x\<in>set s. is_whitespace x")
  case True
  have ws: "is_whitespace (CHR 0x0A)"
    by (simp add: is_whitespace_def)
  from True have a: "dropWhile is_whitespace s = []"
    by (simp only: dropWhile_eq_Nil_conv)
  from True ws have "\<forall>x\<in>set (s @ [CHR 0x0A]). is_whitespace x"
    by simp
  then have b: "dropWhile is_whitespace (s @ [CHR 0x0A]) = []"
    by (simp only: dropWhile_eq_Nil_conv)
  show ?thesis unfolding trim_def a b by simp
next
  case False
  then have "dropWhile is_whitespace (s @ [CHR 0x0A]) = dropWhile is_whitespace s @ [CHR 0x0A]"
    by (auto simp: dropWhile_append1)
  then show ?thesis by (simp add: trim_def is_whitespace_def)
qed

text \<open>What the replacement does on a text that ends with a fence, and on one that
  starts with one.\<close>

lemma replace_fences_after_fence:
  "replace_fences (fence @ x) = replace_fences (skip_newline (skip_json x))"
  by (simp add: fence_def)

lemma replace_fences_closing:
  assumes "\<not> has_fence body" and "tnl = [] \<or> tnl = [CHR 0x0A]"
  shows "replace_fences (body @ fence @ tnl) = body
       \<or> replace_fences (body @ fence @ tnl) = body @ [CHR 0x0A]"
  using assms(1)
proof (induction body)
  case Nil
  from assms(2) show ?case
    by (auto simp: fence_def skip_json_def skip_newline_def)
next
  case (Cons c cs)
  then have np: "\<not> prefix fence (c # cs)" and nf: "\<not> has_fence cs" by simp_all
  show ?case
  proof (cases "prefix fence (c # cs @ fence @ tnl)")
    case False
    with Cons.IH [OF nf] show ?thesis by auto
  next
    case True
    with np have "cs = [] \<or> cs = [CHR 0x60]"
      by (cases cs; cases "tl cs") (auto simp: fence_def)
    moreover from True have "c = CHR 0x60" by (simp add: fence_def)
    ultimately show ?thesis
      using assms(2) by (auto simp: fence_def skip_json_def skip_newline_def)
  qed
qed

lemma trim_skip_newline: "trim (skip_newline s) = trim s"
  by (cases s) (auto simp: skip_newline_def trim_def is_whitespace_def)

lemma has_fence_skip_newline: "has_fence (skip_newline s) \<Longrightarrow> has_fence s"
  by (cases s) (auto simp: skip_newline_def split: if_splits)

lemma skip_newline_before_fence:
  "skip_newline (body @ fence @ tnl) = skip_newline body @ fence @ tnl"
  by (cases body) (auto simp: skip_newline_def fence_def)

lemma skip_json_before_fence:
  "\<not> prefix ''json'' body \<Longrightarrow> skip_json (body @ fence @ tnl) = body @ fence @ tnl"
proof -
  assume a: "\<not> prefix ''json'' body"
  have "\<not> prefix ''json'' (body @ fence @ tnl)"
  proof (cases body)
    case Nil
    then show ?thesis by (simp add: fence_def)
  next
    case b1: (Cons c1 r1)
    show ?thesis
    proof (cases r1)
      case Nil
      with b1 show ?thesis by (simp add: fence_def)
    next
      case b2: (Cons c2 r2)
      show ?thesis
      proof (cases r2)
        case Nil
        with b1 b2 show ?thesis by (simp add: fence_def)
      next
        case b3: (Cons c3 r3)
        show ?thesis
        proof (cases r3)
          case Nil
          with b1 b2 b3 show ?thesis by (simp add: fence_def)
        next
          case (Cons c4 r4)
          with b1 b2 b3 a show ?thesis by simp
        qed
      qed
    qed
  qed
  then show ?thesis by (simp add: skip_json_def)
qed

lemma cleanText_unwrap:
  assumes nf: "\<not> has_fence body"
    and tag: "tag = [] \<or> tag = ''json''"
    and onl: "onl = [] \<or> onl = [CHR 0x0A]"
    and tnl: "tnl = [] \<or> tnl = [CHR 0x0A]"
    and amb: "tag = [] \<and> onl = [] \<longrightarrow> \<not> prefix ''json'' body"
  shows "cleanText (fence @ tag @ onl @ body @ fence @ tnl) = trim body"
proof -
  let ?rest = "body @ fence @ tnl"
  have "skip_newline (skip_json (tag @ onl @ ?rest)) = ?rest
      \<or> skip_newline (skip_json (tag @ onl @ ?rest)) = skip_newline ?rest"
  proof (cases "onl = []")
    case False
    with onl tag show ?thesis
      by (auto simp: skip_json_def skip_newline_def)
  next
    case True
    show ?thesis
    proof (cases "tag = []")
      case False
      with tag True show ?thesis by (simp add: skip_json_def)
    next
      case t: True
      with True amb have "skip_json ?rest = ?rest"
        by (simp add: skip_json_before_fence)
      with t True show ?thesis by simp
    qed
  qed
  then obtain b where b: "skip_newline (skip_json (tag @ onl @ ?rest)) = b @ fence @ tnl"
    and bb: "b = body \<or> b = skip_newline body"
    using skip_newline_before_fence by metis
  from bb nf have nfb: "\<not> has_fence b"
    using has_fence_skip_newline by blast
  from bb have tb: "trim b = trim body"
    using trim_skip_newline by auto
  have "replace_fences (fence @ tag @ onl @ ?rest) = replace_fences (b @ fence @ tnl)"
    using replace_fences_after_fence [of "tag @ onl @ ?rest"] b by simp
  with replace_fences_closing [OF nfb tnl]
  have "replace_fences (fence @ tag @ onl @ ?rest) = b
      \<or> replace_fences (fence @ tag @ onl @ ?rest) = b @ [CHR 0x0A]"
    by simp
  then have "trim (replace_fences (fence @ tag @ onl @ ?rest)) = trim b"
    using trim_newline by auto
  with tb show ?thesis by (simp add: cleanText_def)
qed

lemma cleanText_no_fence: "\<not> has_fence (cleanText t)"
  unfolding cleanText_def using has_fence_trim replace_fences_no_fence by blast

lemma cleanText_idem: "cleanText (cleanText t) = cleanText t"
proof -
  have "replace_fences (cleanText t) = cleanText t"
    using cleanText_no_fence by (rule replace_fences_id)
  then show ?thesis
    by (simp add: cleanText_def trim_idem)
qed

text \<open>
  C9. Fence stripping removes the fence markers and is idempotent. For every text,
  stripping the stripped text returns it unchanged, and the stripped text has no fence
  left. A body without fences is stripped to its trimmed self; the same body wrapped in
  fences (an opening fence, with or without the tag \<open>json\<close>, with or without a newline
  after it; a closing fence, with or without a newline after it) is stripped to the same
  text, so \<open>JSON.parse\<close> gets the same input for the wrapped response and for the
  unwrapped one. (Without a tag and without a newline after the opening fence, a body
  that starts with \<open>json\<close> would itself be read as the tag.)
\<close>

theorem cleanText_unwraps_and_idempotent:
  "cleanText (cleanText t) = cleanText t
   \<and> \<not> has_fence (cleanText t)
   \<and> (\<not> has_fence body \<and> (tag = [] \<or> tag = ''json'')
        \<and> (onl = [] \<or> onl = [CHR 0x0A]) \<and> (tnl = [] \<or> tnl = [CHR 0x0A])
        \<and> (tag = [] \<and> onl = [] \<longrightarrow> \<not> prefix ''json'' body)
      \<longrightarrow> cleanText body = trim body
        \<and> cleanText (fence @ tag @ onl @ body @ fence @ tnl) = cleanText body
        \<and> JSON_parse e (cleanText (fence @ tag @ onl @ body @ fence @ tnl))
            = JSON_parse e (cleanText body))"
proof (intro conjI impI)
  show "cleanText (cleanText t) = cleanText t"
    by (rule cleanText_idem)
  show "\<not> has_fence (cleanText t)"
    by (rule cleanText_no_fence)
  assume h: "\<not> has_fence body \<and> (tag = [] \<or> tag = ''json'')
        \<and> (onl = [] \<or> onl = [CHR 0x0A]) \<and> (tnl = [] \<or> tnl = [CHR 0x0A])
        \<and> (tag = [] \<and> onl = [] \<longrightarrow> \<not> prefix ''json'' body)"
  then show b: "cleanText body = trim body"
    by (simp add: cleanText_def replace_fences_id)
  from h have "cleanText (fence @ tag @ onl @ body @ fence @ tnl) = trim body"
    by (intro cleanText_unwrap) simp_all
  with b show w: "cleanText (fence @ tag @ onl @ body @ fence @ tnl) = cleanText body"
    by simp
  from w show "JSON_parse e (cleanText (fence @ tag @ onl @ body @ fence @ tnl))
            = JSON_parse e (cleanText body)"
    by simp
qed

theorem cleanText_unwraps_and_idempotent_witness:
  "\<not> has_fence (incomplete_text @ [CHR 0x0A])
   \<and> cleanText (fence @ ''json'' @ [CHR 0x0A] @ (incomplete_text @ [CHR 0x0A]) @ fence @ [])
       = incomplete_text
   \<and> cleanText (incomplete_text @ [CHR 0x0A]) = incomplete_text
   \<and> cleanText (cleanText (fence @ ''json'' @ [CHR 0x0A] @ (incomplete_text @ [CHR 0x0A])
        @ fence @ []))
       = incomplete_text"
proof -
  let ?body = "incomplete_text @ [CHR 0x0A]"
  let ?wrapped = "fence @ ''json'' @ [CHR 0x0A] @ ?body @ fence @ []"
  have nf: "\<not> has_fence ?body"
    by (simp add: incomplete_text_def fence_def)
  have tr: "trim ?body = incomplete_text"
    by (simp add: trim_def incomplete_text_def is_whitespace_def)
  have hyp: "\<not> has_fence ?body \<and> (''json'' = [] \<or> ''json'' = ''json'')
        \<and> ([CHR 0x0A] = [] \<or> [CHR 0x0A] = [CHR 0x0A])
        \<and> (([]::string) = [] \<or> ([]::string) = [CHR 0x0A])
        \<and> (''json'' = [] \<and> [CHR 0x0A] = [] \<longrightarrow> \<not> prefix ''json'' ?body)"
    using nf by simp
  note T = cleanText_unwraps_and_idempotent
      [of ?wrapped ?body "''json''" "[CHR 0x0A]" "[]" demo_env]
  from T have i: "cleanText (cleanText ?wrapped) = cleanText ?wrapped"
    by (rule conjunct1)
  from T hyp have b: "cleanText ?body = trim ?body"
    and w: "cleanText ?wrapped = cleanText ?body"
    by blast+
  from b tr have g3: "cleanText ?body = incomplete_text"
    by (rule trans)
  from w g3 have g2: "cleanText ?wrapped = incomplete_text"
    by (rule trans)
  from i g2 have g4: "cleanText (cleanText ?wrapped) = incomplete_text"
    by (rule trans)
  from nf g2 g3 g4 show ?thesis
    by (intro conjI)
qed

subsection \<open>Image ingestion in addCar\<close>

lemma ingest_cars: "cars (snd (ingest e fp i imgs acc s)) = cars s"
  by (induction imgs arbitrary: i acc s)
     (auto simp: console_add_def Let_def split: sum.splits option.splits)

lemma ingest_none_accepted:
  "\<forall>b\<in>set imgs. \<not> accepted b \<Longrightarrow>
     fst (ingest e fp i imgs acc s) = Inr acc
     \<and> storage_calls (snd (ingest e fp i imgs acc s)) = storage_calls s"
  by (induction imgs arbitrary: i s) (auto simp: accepted_def console_add_def)

lemma ingest_accepted:
  assumes "\<forall>b\<in>set imgs. accepted b \<longrightarrow> CHR '','' \<in> set b"
    and "\<forall>p. upload_error e p = None"
  shows "fst (ingest e fp i imgs acc s) = Inr (acc @ public_urls_of e fp i imgs)"
  using assms
proof (induction imgs arbitrary: i acc s)
  case Nil
  show ?case by (simp add: public_urls_of_def)
next
  case (Cons b imgs)
  show ?case
  proof (cases "accepted b")
    case False
    then have "b = [] \<or> \<not> prefix ''data:image/'' b" by (simp add: accepted_def)
    with Cons False show ?thesis
      by (simp add: public_urls_of_def)
  next
    case True
    then have p: "\<not> (b = [] \<or> \<not> prefix ''data:image/'' b)" by (auto simp: accepted_def)
    from True Cons.prems have "CHR '','' \<in> set b" by simp
    then obtain payload where "Buffer_from (split_comma_1 b) = Inr payload"
      by (simp add: split_comma_1_def Buffer_from_def)
    with p Cons True show ?thesis
      by (simp add: public_urls_of_def Let_def)
  qed
qed

lemma length_public_urls_of:
  "length (public_urls_of e fp i imgs) = length (filter accepted imgs)"
proof -
  have "map snd (filter (\<lambda>(j, b). accepted b) (enumerate i imgs)) = filter accepted imgs"
    by (induction imgs arbitrary: i) auto
  then have "length (filter (\<lambda>(j, b). accepted b) (enumerate i imgs))
      = length (filter accepted imgs)"
    by (metis length_map)
  then show ?thesis by (simp add: public_urls_of_def)
qed

lemma addCar_state_cases:
  "cars (snd (addCar e d imgs s)) = cars s
   \<or> (\<exists>urls. urls \<noteq> [] \<and> cars (snd (addCar e d imgs s)) = cars s @ [new_car e d urls])"
proof -
  obtain r s1 where ing: "ingest e (''cars/'' @ next_uuid e) 0 imgs [] s = (r, s1)"
    by (cases "ingest e (''cars/'' @ next_uuid e) 0 imgs [] s")
  then have c: "cars s1 = cars s"
    using ingest_cars [of e "''cars/'' @ next_uuid e" 0 imgs "[]" s] by simp
  show ?thesis
    using ing c
    by (auto simp: addCar_def addCar_try_def db_car_create_def revalidatePath_def
             split: sum.splits if_splits)
qed

lemma images_new_car: "images (new_car e d urls) = urls"
  by (simp add: new_car_def car_data.extend_def car.fields_def)

text \<open>
  C1 (as amended). For every call to addCar that passes the identity check and whose
  image sequence has no entry starting with \<open>data:image/\<close>, the call throws the
  no-valid-images error. For every call with such a sequence, whatever the identity
  check says, the call throws, the table of cars is as before and no storage call is
  made. Every row that a call to addCar adds to the table has at least one image URL.
\<close>

theorem addCar_no_valid_images:
  "((\<forall>b\<in>set imgs. \<not> accepted b) \<longrightarrow>
      (identity_check e s = Inr u \<longrightarrow>
         fst (addCar e d imgs s)
           = Inl (JsError Error ''Error adding car:No valid images were uploaded''))
      \<and> isl (fst (addCar e d imgs s))
      \<and> cars (snd (addCar e d imgs s)) = cars s
      \<and> storage_calls (snd (addCar e d imgs s)) = storage_calls s)
   \<and> (\<forall>c\<in>set (cars (snd (addCar e d imgs s))). c \<in> set (cars s) \<or> images c \<noteq> [])"
proof (intro conjI impI)
  assume na: "\<forall>b\<in>set imgs. \<not> accepted b"
  obtain s1 where ing: "ingest e (''cars/'' @ next_uuid e) 0 imgs [] s = (Inr [], s1)"
    and sc: "storage_calls s1 = storage_calls s"
    using ingest_none_accepted [OF na, of e "''cars/'' @ next_uuid e" 0 "[]" s]
    by (cases "ingest e (''cars/'' @ next_uuid e) 0 imgs [] s") auto
  have c: "cars s1 = cars s"
    using ingest_cars [of e "''cars/'' @ next_uuid e" 0 imgs "[]" s] ing by simp
  show "isl (fst (addCar e d imgs s))"
    using ing by (simp add: addCar_def addCar_try_def split: sum.splits)
  show "cars (snd (addCar e d imgs s)) = cars s"
    using ing c by (simp add: addCar_def addCar_try_def split: sum.splits)
  show "storage_calls (snd (addCar e d imgs s)) = storage_calls s"
    using ing sc by (simp add: addCar_def addCar_try_def split: sum.splits)
  assume "identity_check e s = Inr u"
  then show "fst (addCar e d imgs s)
      = Inl (JsError Error ''Error adding car:No valid images were uploaded'')"
    using ing by (simp add: addCar_def addCar_try_def)
next
  show "\<forall>c\<in>set (cars (snd (addCar e d imgs s))). c \<in> set (cars s) \<or> images c \<noteq> []"
    using addCar_state_cases [of e d imgs s] by (auto simp: images_new_car)
qed

theorem addCar_no_valid_images_witness:
  "\<not> accepted ''not-an-image'' \<and> \<not> accepted []
   \<and> identity_check demo_env demo_state = Inr ''user_1''
   \<and> fst (addCar demo_env demo_data [''not-an-image'', []] demo_state)
       = Inl (JsError Error ''Error adding car:No valid images were uploaded'')
   \<and> cars (snd (addCar demo_env demo_data [''not-an-image'', []] demo_state)) = []
   \<and> storage_calls (snd (addCar demo_env demo_data [''not-an-image'', []] demo_state)) = []"
proof -
  have a: "\<forall>b\<in>set [''not-an-image'', []]. \<not> accepted b"
    by (simp add: accepted_def)
  have i: "identity_check demo_env demo_state = Inr ''user_1''"
    by (simp add: identity_check_def falsy_def demo_env_def demo_state_def)
  have c: "cars demo_state = []" and st: "storage_calls demo_state = []"
    by (simp_all add: demo_state_def)
  show ?thesis
    using addCar_no_valid_images
      [of "[''not-an-image'', []]" demo_env demo_state "''user_1''" demo_data] a i c st
    by (simp add: accepted_def)
qed

text \<open>A call without a session and with no image fails on the identity check, with
  another error than the no-valid-images one.\<close>

theorem addCar_unauthorized_counterexample:
  "fst (addCar (demo_env\<lparr>auth_userId := None\<rparr>) demo_data [] demo_state)
     = Inl (JsError Error ''Error adding car:Unauthorized!'')
   \<and> fst (addCar (demo_env\<lparr>auth_userId := None\<rparr>) demo_data [] demo_state)
     \<noteq> Inl (JsError Error ''Error adding car:No valid images were uploaded'')"
  by (simp add: addCar_def addCar_try_def identity_check_def falsy_def demo_env_def)

text \<open>
  C2 (as amended). For every image sequence in which each entry that starts with
  \<open>data:image/\<close> has a comma (so that a payload follows the header), and with every
  upload succeeding, the loop of addCar returns exactly one public URL per entry that
  starts with \<open>data:image/\<close>, in the order of the input, each built from the index and
  the extension of its entry; the entries that do not start with the prefix are skipped.
  When there is at least one accepted entry, the identity check passes and the
  identifier is new, addCar succeeds and stores the row with these URLs.
\<close>

theorem ingest_one_url_per_accepted:
  assumes "\<forall>b\<in>set imgs. accepted b \<longrightarrow> CHR '','' \<in> set b"
    and "\<forall>p. upload_error e p = None"
  shows "fst (ingest e fp 0 imgs [] s) = Inr (public_urls_of e fp 0 imgs)
    \<and> length (public_urls_of e fp 0 imgs) = length (filter accepted imgs)
    \<and> (identity_check e s = Inr u \<and> next_uuid e \<notin> set (map car_id (cars s))
         \<and> (\<exists>b\<in>set imgs. accepted b)
       \<longrightarrow> fst (addCar e d imgs s) = Inr (Success ())
         \<and> cars (snd (addCar e d imgs s))
             = cars s @ [new_car e d (public_urls_of e (''cars/'' @ next_uuid e) 0 imgs)])"
proof (intro conjI impI)
  show "fst (ingest e fp 0 imgs [] s) = Inr (public_urls_of e fp 0 imgs)"
    using ingest_accepted [OF assms, of fp 0 "[]" s] by simp
  show len: "length (public_urls_of e fp 0 imgs) = length (filter accepted imgs)"
    by (rule length_public_urls_of)
  assume h: "identity_check e s = Inr u \<and> next_uuid e \<notin> set (map car_id (cars s))
         \<and> (\<exists>b\<in>set imgs. accepted b)"
  let ?fp = "''cars/'' @ next_uuid e"
  let ?urls = "public_urls_of e ?fp 0 imgs"
  obtain s1 where ing: "ingest e ?fp 0 imgs [] s = (Inr ?urls, s1)"
    using ingest_accepted [OF assms, of ?fp 0 "[]" s]
    by (cases "ingest e ?fp 0 imgs [] s") auto
  have c: "cars s1 = cars s"
    using ingest_cars [of e ?fp 0 imgs "[]" s] ing by simp
  from h have "filter accepted imgs \<noteq> []"
    by (simp add: filter_empty_conv)
  then have ne: "?urls \<noteq> []"
    using length_public_urls_of [of e ?fp 0 imgs] by (metis length_0_conv)
  have cid: "car_id (new_car e d ?urls) = next_uuid e"
    by (simp add: new_car_def car_data.extend_def car.fields_def)
  show "fst (addCar e d imgs s) = Inr (Success ())"
    using h ing c ne cid
    by (simp add: addCar_def addCar_try_def db_car_create_def)
  show "cars (snd (addCar e d imgs s)) = cars s @ [new_car e d ?urls]"
    using h ing c ne cid
    by (simp add: addCar_def addCar_try_def db_car_create_def revalidatePath_def)
qed

theorem ingest_one_url_per_accepted_witness:
  "map accepted demo_images = [True, False, True]
   \<and> CHR '','' \<in> set (demo_images ! 0) \<and> CHR '','' \<in> set (demo_images ! 2)
   \<and> (\<forall>p. upload_error demo_env p = None)
   \<and> identity_check demo_env demo_state = Inr ''user_1''
   \<and> next_uuid demo_env \<notin> set (map car_id (cars demo_state))
   \<and> fst (ingest demo_env ''cars/u1'' 0 demo_images [] demo_state)
       = Inr [''https://x.supabase.co/storage/v1/object/public/car-images/cars/u1/image-1700-0.png'',
              ''https://x.supabase.co/storage/v1/object/public/car-images/cars/u1/image-1702-2.jpeg'']
   \<and> length (filter accepted demo_images) = 2
   \<and> fst (addCar demo_env demo_data demo_images demo_state) = Inr (Success ())"
proof -
  have a: "\<forall>b\<in>set demo_images. accepted b \<longrightarrow> CHR '','' \<in> set b"
    by (simp add: demo_images_def accepted_def)
  have b: "\<forall>p. upload_error demo_env p = None"
    by (simp add: demo_env_def)
  have i: "identity_check demo_env demo_state = Inr ''user_1''"
    by (simp add: identity_check_def falsy_def demo_env_def demo_state_def)
  have f: "next_uuid demo_env \<notin> set (map car_id (cars demo_state))"
    by (simp add: demo_state_def)
  have x: "\<exists>b\<in>set demo_images. accepted b"
    by (simp add: demo_images_def accepted_def)
  have l: "length (filter accepted demo_images) = 2"
    by (simp add: demo_images_def accepted_def)
  have m: "map accepted demo_images = [True, False, True]"
    "CHR '','' \<in> set (demo_images ! 0)" "CHR '','' \<in> set (demo_images ! 2)"
    by (simp_all add: demo_images_def accepted_def)
  have u: "public_urls_of demo_env ''cars/u1'' 0 demo_images
      = [''https://x.supabase.co/storage/v1/object/public/car-images/cars/u1/image-1700-0.png'',
         ''https://x.supabase.co/storage/v1/object/public/car-images/cars/u1/image-1702-2.jpeg'']"
    by (simp add: public_urls_of_def demo_images_def enumerate_eq_zip accepted_def publicUrl_def
          filePath_def demo_env_def template_str_def fileExtension_def is_alnum_def
          digit_char_def upt_rec)
  show ?thesis
    using ingest_one_url_per_accepted
      [OF a b, of "''cars/u1''" demo_state "''user_1''" demo_data] b i f x l u m
    by simp
qed

text \<open>A sequence with a well-formed png and the string \<open>data:image/png\<close>, which has the
  prefix and no payload: the second entry is not skipped, decoding its missing payload
  throws, and addCar fails.\<close>

theorem ingest_payload_missing_counterexample:
  "accepted ''data:image/png;base64,AAAA'' \<and> accepted ''data:image/png''
   \<and> fst (ingest demo_env ''cars/u1'' 0 [''data:image/png;base64,AAAA'', ''data:image/png''] [] demo_state)
     = Inl (JsError TypeError
          ''The first argument must be of type string or an instance of Buffer, ArrayBuffer, or Array or an Array-like Object. Received undefined'')
   \<and> fst (addCar demo_env demo_data [''data:image/png;base64,AAAA'', ''data:image/png''] demo_state)
     = Inl (JsError Error
          ''Error adding car:The first argument must be of type string or an instance of Buffer, ArrayBuffer, or Array or an Array-like Object. Received undefined'')"
  by (simp add: accepted_def addCar_def addCar_try_def identity_check_def falsy_def demo_env_def demo_state_def
       split_comma_1_def Buffer_from_def Let_def)

subsection \<open>processCarImageWithAI\<close>

lemma filter_missing_object:
  "filter_missing fs (JObject kvs) = Inr (filter (\<lambda>f. f \<notin> set (map fst kvs)) fs)"
  by (induction fs) auto

lemma filter_missing_array: "filter_missing fs (JArray vs) = Inr fs"
  by (induction fs) auto

lemma filter_missing_complete:
  "filter_missing requiredFields v = Inr [] \<longleftrightarrow> has_all_required v"
proof (cases v)
  case (JObject kvs)
  then show ?thesis
    by (simp add: filter_missing_object has_all_required_def filter_empty_conv list_all_iff)
next
  case (JArray vs)
  then show ?thesis
    by (simp add: filter_missing_array has_all_required_def requiredFields_def)
qed (simp_all add: has_all_required_def requiredFields_def)

lemma parse_carDetails_complete:
  "parse_carDetails e t = Inr d \<Longrightarrow> has_all_required d"
  by (auto simp: parse_carDetails_def filter_missing_complete [symmetric]
           split: sum.splits if_splits)

lemma parse_carDetails_incomplete:
  assumes "JSON_parse e t = Inr v" and "\<not> has_all_required v"
  shows "isl (parse_carDetails e t)"
    and "filter_missing requiredFields v = Inr ms \<Longrightarrow>
      parse_carDetails e t
        = Inl (JsError Error (''AI response missing required fields: '' @ join_comma ms))"
proof -
  from assms(2) have ne: "filter_missing requiredFields v \<noteq> Inr []"
    by (simp add: filter_missing_complete)
  with assms(1) show "isl (parse_carDetails e t)"
    by (auto simp: parse_carDetails_def split: sum.splits)
  assume "filter_missing requiredFields v = Inr ms"
  with ne assms(1) show "parse_carDetails e t
        = Inl (JsError Error (''AI response missing required fields: '' @ join_comma ms))"
    by (auto simp: parse_carDetails_def)
qed

text \<open>
  C3 (as amended). For every AI response that parses as JSON and lacks one or more of
  the required keys, processCarImageWithAI returns a tagged failure (it does not throw)
  whose error message is the fixed text "Failed to parse AI response"; the error that
  names the missing keys is written to the console only. The function never returns
  success with a value that lacks a required key.
\<close>

theorem processCarImageWithAI_missing_keys:
  "(\<not> falsy (gemini_api_key e) \<and> generateContent e f FullListingPrompt = Inr text
      \<and> JSON_parse e (cleanText text) = Inr v \<and> \<not> has_all_required v
    \<longrightarrow> fst (processCarImageWithAI e f s) = Inr (Failure ''Failed to parse AI response'')
      \<and> (\<forall>ms. filter_missing requiredFields v = Inr ms \<longrightarrow>
            console (snd (processCarImageWithAI e f s))
              = console s
                @ [ConsoleError [Str ''Failed to parse AI response:'',
                     Err (JsError Error
                       (''AI response missing required fields: '' @ join_comma ms))],
                   ConsoleLog [Str ''Raw response:'', Str text]]))
   \<and> (\<forall>d. fst (processCarImageWithAI e f s) = Inr (Success d) \<longrightarrow> has_all_required d)"
proof (intro conjI impI allI)
  assume h: "\<not> falsy (gemini_api_key e) \<and> generateContent e f FullListingPrompt = Inr text
      \<and> JSON_parse e (cleanText text) = Inr v \<and> \<not> has_all_required v"
  then have "isl (parse_carDetails e (cleanText text))"
    using parse_carDetails_incomplete(1) by blast
  then obtain err where err: "parse_carDetails e (cleanText text) = Inl err"
    by (cases "parse_carDetails e (cleanText text)") auto
  with h show "fst (processCarImageWithAI e f s) = Inr (Failure ''Failed to parse AI response'')"
    by (simp add: processCarImageWithAI_def processCarImageWithAI_try_def Let_def)
  fix ms
  assume "filter_missing requiredFields v = Inr ms"
  with h have "parse_carDetails e (cleanText text)
      = Inl (JsError Error (''AI response missing required fields: '' @ join_comma ms))"
    using parse_carDetails_incomplete(2) by blast
  with h show "console (snd (processCarImageWithAI e f s))
      = console s
        @ [ConsoleError [Str ''Failed to parse AI response:'',
             Err (JsError Error (''AI response missing required fields: '' @ join_comma ms))],
           ConsoleLog [Str ''Raw response:'', Str text]]"
    by (simp add: processCarImageWithAI_def processCarImageWithAI_try_def Let_def
          console_add_def)
next
  fix d
  assume "fst (processCarImageWithAI e f s) = Inr (Success d)"
  then have "parse_carDetails e
      (cleanText (projr (generateContent e f FullListingPrompt))) = Inr d"
    by (auto simp: processCarImageWithAI_def processCarImageWithAI_try_def Let_def
             split: if_splits sum.splits)
  then show "has_all_required d"
    by (rule parse_carDetails_complete)
qed

lemma cleanText_incomplete_text: "cleanText incomplete_text = incomplete_text"
  by (simp add: cleanText_def incomplete_text_def fence_def trim_def is_whitespace_def)

theorem processCarImageWithAI_missing_keys_witness:
  "\<not> falsy (gemini_api_key incomplete_env)
   \<and> generateContent incomplete_env demo_file FullListingPrompt = Inr incomplete_text
   \<and> JSON_parse incomplete_env (cleanText incomplete_text) = Inr incomplete_json
   \<and> \<not> has_all_required incomplete_json
   \<and> fst (processCarImageWithAI incomplete_env demo_file demo_state)
       = Inr (Failure ''Failed to parse AI response'')"
proof -
  have a: "\<not> falsy (gemini_api_key incomplete_env)"
    by (simp add: incomplete_env_def demo_env_def falsy_def)
  have b: "generateContent incomplete_env demo_file FullListingPrompt = Inr incomplete_text"
    by (simp add: incomplete_env_def)
  have c: "JSON_parse incomplete_env (cleanText incomplete_text) = Inr incomplete_json"
    by (simp add: incomplete_env_def cleanText_incomplete_text)
  have d: "\<not> has_all_required incomplete_json"
    by (simp add: has_all_required_def incomplete_json_def requiredFields_def)
  show ?thesis
    using processCarImageWithAI_missing_keys
      [of incomplete_env demo_file incomplete_text incomplete_json demo_state] a b c d
    by simp
qed

text \<open>The response \<open>{"make": "Toyota"}\<close> lacks \<open>model\<close> and nine more keys; the failure
  returned has the fixed message, which names none of them.\<close>

theorem processCarImageWithAI_message_counterexample:
  "JSON_parse incomplete_env (cleanText incomplete_text) = Inr incomplete_json
   \<and> filter_missing requiredFields incomplete_json
       = Inr [''model'', ''year'', ''color'', ''bodyType'', ''price'', ''mileage'',
              ''fuelType'', ''transmission'', ''description'', ''confidence'']
   \<and> fst (processCarImageWithAI incomplete_env demo_file demo_state)
       = Inr (Failure ''Failed to parse AI response'')
   \<and> \<not> str_includes ''Failed to parse AI response'' ''model''"
proof -
  have c: "JSON_parse incomplete_env (cleanText incomplete_text) = Inr incomplete_json"
    by (simp add: incomplete_env_def cleanText_incomplete_text)
  have m: "filter_missing requiredFields incomplete_json
       = Inr [''model'', ''year'', ''color'', ''bodyType'', ''price'', ''mileage'',
              ''fuelType'', ''transmission'', ''description'', ''confidence'']"
    by (simp add: incomplete_json_def requiredFields_def)
  have p: "parse_carDetails incomplete_env (cleanText incomplete_text)
       = Inl (JsError Error (''AI response missing required fields: '' @ join_comma
              [''model'', ''year'', ''color'', ''bodyType'', ''price'', ''mileage'',
              ''fuelType'', ''transmission'', ''description'', ''confidence'']))"
    using c m by (simp add: parse_carDetails_def)
  have k: "\<not> falsy (gemini_api_key incomplete_env)"
    by (simp add: incomplete_env_def demo_env_def falsy_def)
  have g: "generateContent incomplete_env demo_file FullListingPrompt = Inr incomplete_text"
    by (simp add: incomplete_env_def)
  have r: "fst (processCarImageWithAI incomplete_env demo_file demo_state)
       = Inr (Failure ''Failed to parse AI response'')"
    using p k g by (simp add: processCarImageWithAI_def processCarImageWithAI_try_def Let_def)
  have n: "\<not> str_includes ''Failed to parse AI response'' ''model''"
    by simp
  from c m r n show ?thesis by blast
qed

subsection \<open>processImageSearch\<close>

lemma processCarImageWithAI_not_json:
  assumes "\<not> falsy (gemini_api_key e)"
    and "generateContent e f FullListingPrompt = Inr text"
    and "JSON_parse e (cleanText text) = Inl err"
  shows "fst (processCarImageWithAI e f s) = Inr (Failure ''Failed to parse AI response'')"
  using assms
  by (simp add: processCarImageWithAI_def processCarImageWithAI_try_def Let_def
        parse_carDetails_def)

lemma processImageSearch_not_json:
  assumes "protect e = Allowed"
    and "\<not> falsy (gemini_api_key e)"
    and "generateContent e f SearchHintPrompt = Inr text"
    and "JSON_parse e (cleanText text) = Inl err"
  shows "fst (processImageSearch e f s) = Inl (JsError Error ''AI search error:'')"
  using assms
  by (simp add: processImageSearch_def processImageSearch_try_def Let_def
        parse_catch_handler_def new_Error_options_def)

text \<open>
  C4. On a response text that is not JSON, processCarImageWithAI returns the tagged
  failure, and processImageSearch does not: the handler of its inner \<open>catch\<close> reads the
  identifier \<open>parseError\<close>, which is not bound there, so the handler throws and the
  action ends with the thrown error of the outer \<open>catch\<close>. Here both are run on the
  response \<open>not json\<close>.
\<close>

theorem processImageSearch_not_json_throws:
  "generateContent demo_env demo_file SearchHintPrompt = Inr ''not json''
   \<and> isl (JSON_parse demo_env (cleanText ''not json''))
   \<and> fst (processCarImageWithAI demo_env demo_file demo_state)
       = Inr (Failure ''Failed to parse AI response'')
   \<and> fst (processImageSearch demo_env demo_file demo_state)
       = Inl (JsError Error ''AI search error:'')"
proof -
  have p: "protect demo_env = Allowed" and k: "\<not> falsy (gemini_api_key demo_env)"
    and g: "generateContent demo_env demo_file SearchHintPrompt = Inr ''not json''"
    and g': "generateContent demo_env demo_file FullListingPrompt = Inr ''not json''"
    and j: "JSON_parse demo_env (cleanText ''not json'')
        = Inl (JsError SyntaxError ''Unexpected token'')"
    by (simp_all add: demo_env_def falsy_def)
  from j have "isl (JSON_parse demo_env (cleanText ''not json''))" by simp
  with g processCarImageWithAI_not_json [OF k g' j, of demo_state]
    processImageSearch_not_json [OF p k g j, of demo_state]
  show ?thesis by simp
qed

text \<open>
  C5 (as amended). For every call to processImageSearch where the admission check
  denies the request with the reason rate-limit, the call throws, the AI provider is
  not invoked, and the remaining quota and the reset time of the denial are written to
  the console; the thrown error does not depend on them.
\<close>

theorem processImageSearch_rate_limited:
  "protect e = Denied (RateLimit remaining reset) \<Longrightarrow>
     isl (fst (processImageSearch e f s))
     \<and> ai_calls (snd (processImageSearch e f s)) = ai_calls s
     \<and> console (snd (processImageSearch e f s))
         = console s @ [ConsoleError [RateLimitExceeded remaining reset]]
     \<and> fst (processImageSearch (e\<lparr>protect := Denied (RateLimit remaining' reset')\<rparr>) f s)
         = fst (processImageSearch e f s)"
  by (simp add: processImageSearch_def processImageSearch_try_def console_add_def)

theorem processImageSearch_rate_limited_witness:
  "protect (demo_env\<lparr>protect := Denied (RateLimit 0 30)\<rparr>) = Denied (RateLimit 0 30)
   \<and> isl (fst (processImageSearch (demo_env\<lparr>protect := Denied (RateLimit 0 30)\<rparr>)
              demo_file demo_state))
   \<and> ai_calls (snd (processImageSearch (demo_env\<lparr>protect := Denied (RateLimit 0 30)\<rparr>)
              demo_file demo_state)) = 0
   \<and> console (snd (processImageSearch (demo_env\<lparr>protect := Denied (RateLimit 0 30)\<rparr>)
              demo_file demo_state)) = [ConsoleError [RateLimitExceeded 0 30]]"
proof -
  have p: "protect (demo_env\<lparr>protect := Denied (RateLimit 0 30)\<rparr>) = Denied (RateLimit 0 30)"
    by simp
  have s: "ai_calls demo_state = 0" "console demo_state = []"
    by (simp_all add: demo_state_def)
  show ?thesis
    using processImageSearch_rate_limited [OF p, of demo_file demo_state] s
    by simp
qed

text \<open>The denial \<open>remaining = 0, reset = 30\<close>, the denial \<open>remaining = 7, reset = 99\<close> and
  a denial for another reason all end with the same thrown error, whose message has
  neither the values nor the kind of the denial.\<close>

theorem processImageSearch_error_counterexample:
  "fst (processImageSearch (demo_env\<lparr>protect := Denied (RateLimit 0 30)\<rparr>) demo_file demo_state)
     = Inl (JsError Error ''AI search error:'')
   \<and> fst (processImageSearch (demo_env\<lparr>protect := Denied (RateLimit 7 99)\<rparr>) demo_file demo_state)
     = Inl (JsError Error ''AI search error:'')
   \<and> fst (processImageSearch (demo_env\<lparr>protect := Denied OtherReason\<rparr>) demo_file demo_state)
     = Inl (JsError Error ''AI search error:'')"
  by (simp add: processImageSearch_def processImageSearch_try_def new_Error_options_def)

subsection \<open>deleteCar\<close>

lemma cars_delete_images: "cars (delete_images e c s) = cars s"
  by (simp add: delete_images_def console_add_def Let_def split: sum.splits option.splits)

lemma findUnique_Some: "i \<in> set (map car_id (cars s)) \<Longrightarrow> \<exists>c. db_car_findUnique i s = Some c"
  unfolding db_car_findUnique_def
  by (cases "find (\<lambda>c. car_id c = i) (cars s)") (auto simp: find_None_iff)

lemma findUnique_None: "i \<notin> set (map car_id (cars s)) \<Longrightarrow> db_car_findUnique i s = None"
  unfolding db_car_findUnique_def by (auto simp: find_None_iff)

text \<open>
  C7. For every authenticated deleteCar(id) call, that is, one that passes the identity
  check of the action (a session, and a local user row for it), where a car with that id
  exists, the call returns
  \<open>{success: true}\<close> and the row of the car is deleted, the other rows staying, whatever
  the URL parser and the storage client do: fail on every image, report an error, or
  throw. A failure of the storage is written to the console and nothing else: an image
  URL that does not parse or a removal that throws, by the inner \<open>catch\<close>; an error
  that the removal reports, by the test of \<open>error\<close>.
\<close>

theorem deleteCar_existing:
  assumes "identity_check e s = Inr u"
    and "db_car_findUnique i s = Some c"
  shows "fst (deleteCar e i s) = Success ()
    \<and> i \<notin> set (map car_id (cars (snd (deleteCar e i s))))
    \<and> cars (snd (deleteCar e i s)) = filter (\<lambda>c. car_id c \<noteq> i) (cars s)
    \<and> (map_paths e (images c) = Inl err \<longrightarrow>
         console (snd (deleteCar e i s))
           = console s @ [ConsoleError [Str ''Error with storage operations:'', Err err]])
    \<and> (map_paths e (images c) = Inr ps \<and> filter_Boolean ps \<noteq> []
           \<and> storage_remove e (filter_Boolean ps) = Inl err \<longrightarrow>
         console (snd (deleteCar e i s))
           = console s @ [ConsoleError [Str ''Error with storage operations:'', Err err]])
    \<and> (map_paths e (images c) = Inr ps \<and> filter_Boolean ps \<noteq> []
           \<and> storage_remove e (filter_Boolean ps) = Inr (Some msg) \<longrightarrow>
         console (snd (deleteCar e i s))
           = console s @ [ConsoleError [Str ''Error deleting images:'', Str msg]])"
proof (intro conjI impI)
  show "fst (deleteCar e i s) = Success ()"
    using assms by (simp add: deleteCar_def deleteCar_try_def)
  show k: "cars (snd (deleteCar e i s)) = filter (\<lambda>c. car_id c \<noteq> i) (cars s)"
    using assms
    by (simp add: deleteCar_def deleteCar_try_def revalidatePath_def cars_delete_images
          db_car_delete_def)
  from k show "i \<notin> set (map car_id (cars (snd (deleteCar e i s))))" by auto
  have st: "snd (deleteCar e i s)
      = revalidatePath ''/admin/cars'' (delete_images e c (db_car_delete i s))"
    using assms by (simp add: deleteCar_def deleteCar_try_def)
  show "console (snd (deleteCar e i s))
      = console s @ [ConsoleError [Str ''Error with storage operations:'', Err err]]"
    if "map_paths e (images c) = Inl err"
    using that
    by (simp add: st revalidatePath_def delete_images_def console_add_def db_car_delete_def)
  show "console (snd (deleteCar e i s))
      = console s @ [ConsoleError [Str ''Error with storage operations:'', Err err]]"
    if "map_paths e (images c) = Inr ps \<and> filter_Boolean ps \<noteq> []
           \<and> storage_remove e (filter_Boolean ps) = Inl err"
    using that
    by (simp add: st revalidatePath_def delete_images_def console_add_def db_car_delete_def)
  show "console (snd (deleteCar e i s))
      = console s @ [ConsoleError [Str ''Error deleting images:'', Str msg]]"
    if "map_paths e (images c) = Inr ps \<and> filter_Boolean ps \<noteq> []
           \<and> storage_remove e (filter_Boolean ps) = Inr (Some msg)"
    using that
    by (simp add: st revalidatePath_def delete_images_def console_add_def db_car_delete_def)
qed

theorem deleteCar_existing_witness:
  "identity_check broken_storage_env stocked_state = Inr ''user_1''
   \<and> db_car_findUnique ''c1'' stocked_state = Some demo_car
   \<and> map_paths broken_storage_env (images demo_car) = Inr [Some ''cars/c1/image-1-0.png'']
   \<and> filter_Boolean [Some ''cars/c1/image-1-0.png''] = [''cars/c1/image-1-0.png'']
   \<and> storage_remove broken_storage_env [''cars/c1/image-1-0.png'']
       = Inl (JsError Error ''fetch failed'')
   \<and> fst (deleteCar broken_storage_env ''c1'' stocked_state) = Success ()
   \<and> cars (snd (deleteCar broken_storage_env ''c1'' stocked_state)) = []
   \<and> console (snd (deleteCar broken_storage_env ''c1'' stocked_state))
       = [ConsoleError [Str ''Error with storage operations:'',
            Err (JsError Error ''fetch failed'')]]"
proof -
  have i: "identity_check broken_storage_env stocked_state = Inr ''user_1''"
    by (simp add: identity_check_def falsy_def broken_storage_env_def demo_env_def
          stocked_state_def demo_state_def)
  have c: "car_id demo_car = ''c1''"
    by (simp add: demo_car_def car_data.extend_def car.fields_def)
  have f: "db_car_findUnique ''c1'' stocked_state = Some demo_car"
    by (simp add: db_car_findUnique_def stocked_state_def c)
  have im: "images demo_car
      = [''https://x.supabase.co/storage/v1/object/public/car-images/cars/c1/image-1-0.png'']"
    by (simp add: demo_car_def car_data.extend_def car.fields_def)
  have mp: "map_paths broken_storage_env (images demo_car) = Inr [Some ''cars/c1/image-1-0.png'']"
    by (simp add: im broken_storage_env_def line_terminator_def)
  have fb: "filter_Boolean [Some ''cars/c1/image-1-0.png''] = [''cars/c1/image-1-0.png'']"
    by (simp add: filter_Boolean_def falsy_def)
  have r: "storage_remove broken_storage_env [''cars/c1/image-1-0.png'']
       = Inl (JsError Error ''fetch failed'')"
    by (simp add: broken_storage_env_def)
  have e: "filter (\<lambda>c. car_id c \<noteq> ''c1'') (cars stocked_state) = []"
    "console stocked_state = []"
    by (simp_all add: stocked_state_def demo_state_def c)
  show ?thesis
    using deleteCar_existing
      [OF i f, of "JsError Error ''fetch failed''" "[Some ''cars/c1/image-1-0.png'']"]
      i f mp fb r e
    by simp
qed

text \<open>The identity check has two steps. A caller with a session and no local user row
  does not pass it: the call returns the tagged failure and the row stays.\<close>

lemma deleteCar_unmapped_user:
  "auth_userId (demo_env\<lparr>auth_userId := Some ''user_2''\<rparr>) = Some ''user_2''
   \<and> db_car_findUnique ''c1'' stocked_state = Some demo_car
   \<and> fst (deleteCar (demo_env\<lparr>auth_userId := Some ''user_2''\<rparr>) ''c1'' stocked_state)
       = Failure ''User not found''
   \<and> cars (snd (deleteCar (demo_env\<lparr>auth_userId := Some ''user_2''\<rparr>) ''c1'' stocked_state))
       = [demo_car]"
proof -
  have c: "car_id demo_car = ''c1''"
    by (simp add: demo_car_def car_data.extend_def car.fields_def)
  have f: "db_car_findUnique ''c1'' stocked_state = Some demo_car"
    by (simp add: db_car_findUnique_def stocked_state_def c)
  have i: "identity_check (demo_env\<lparr>auth_userId := Some ''user_2''\<rparr>) stocked_state
      = Inl (JsError Error ''User not found'')"
    by (simp add: identity_check_def falsy_def stocked_state_def demo_state_def)
  show ?thesis
    using f i
    by (simp add: deleteCar_def deleteCar_try_def console_add_def stocked_state_def)
qed

text \<open>
  C8. For every deleteCar(id) call with a session where no car with that id exists, the
  call returns a tagged failure of the not-found kind (it cannot throw): "Car not found"
  when the caller has a local user row, "User not found" otherwise; no storage call is
  made and the table of cars is as before.
\<close>

theorem deleteCar_missing:
  assumes "\<not> falsy (auth_userId e)"
    and "i \<notin> set (map car_id (cars s))"
  shows "(fst (deleteCar e i s) = Failure ''Car not found''
          \<or> fst (deleteCar e i s) = Failure ''User not found'')
    \<and> (identity_check e s = Inr u \<longrightarrow> fst (deleteCar e i s) = Failure ''Car not found'')
    \<and> storage_calls (snd (deleteCar e i s)) = storage_calls s
    \<and> cars (snd (deleteCar e i s)) = cars s"
  using assms findUnique_None [OF assms(2)]
  by (auto simp: deleteCar_def deleteCar_try_def identity_check_def console_add_def)

theorem deleteCar_missing_witness:
  "\<not> falsy (auth_userId broken_storage_env)
   \<and> ''zz'' \<notin> set (map car_id (cars stocked_state))
   \<and> identity_check broken_storage_env stocked_state = Inr ''user_1''
   \<and> fst (deleteCar broken_storage_env ''zz'' stocked_state) = Failure ''Car not found''
   \<and> storage_calls (snd (deleteCar broken_storage_env ''zz'' stocked_state)) = []
   \<and> cars (snd (deleteCar broken_storage_env ''zz'' stocked_state)) = [demo_car]"
proof -
  have a: "\<not> falsy (auth_userId broken_storage_env)"
    by (simp add: falsy_def broken_storage_env_def demo_env_def)
  have c: "car_id demo_car = ''c1''"
    by (simp add: demo_car_def car_data.extend_def car.fields_def)
  have m: "''zz'' \<notin> set (map car_id (cars stocked_state))"
    by (simp add: stocked_state_def c)
  have i: "identity_check broken_storage_env stocked_state = Inr ''user_1''"
    by (simp add: identity_check_def falsy_def broken_storage_env_def demo_env_def
          stocked_state_def demo_state_def)
  have s: "storage_calls stocked_state = []" "cars stocked_state = [demo_car]"
    by (simp_all add: stocked_state_def demo_state_def)
  show ?thesis
    using deleteCar_missing [OF a m, of "''user_1''"] a m i s by simp
qed

subsection \<open>updateCarStatus\<close>

lemma status_apply_featured:
  "status (apply_update \<lparr>upd_status = None, upd_featured = Some b\<rparr> c) = status c"
  by (simp add: apply_update_def)

lemma featured_apply_status:
  "featured (apply_update \<lparr>upd_status = Some st, upd_featured = None\<rparr> c) = featured c"
  by (simp add: apply_update_def)

lemma cars_updateCarStatus:
  "cars (snd (updateCarStatus e i st ft s))
     = (if isl (identity_check e s) \<or> i \<notin> set (map car_id (cars s)) then cars s
        else map (\<lambda>c. if car_id c = i then apply_update (build_updateData st ft) c else c)
               (cars s))"
  by (auto simp: updateCarStatus_def updateCarStatus_try_def db_car_update_def
        console_add_def revalidatePath_def split: sum.splits)

text \<open>
  C6. For every call updateCarStatus(id, {featured: b}) with status undefined, the
  status of every row is left unchanged; for every call updateCarStatus(id, {status: s})
  with featured undefined, the featured flag of every row is left unchanged. The update
  data has exactly the fields provided, and when the identity check passes and the row
  exists, the provided field, and nothing else, is written to the row of the identifier.
\<close>

theorem updateCarStatus_partial:
  "map status (cars (snd (updateCarStatus e i None (Some b) s))) = map status (cars s)
   \<and> map featured (cars (snd (updateCarStatus e i (Some st) None s))) = map featured (cars s)
   \<and> build_updateData None (Some b) = \<lparr>upd_status = None, upd_featured = Some b\<rparr>
   \<and> build_updateData (Some st) None = \<lparr>upd_status = Some st, upd_featured = None\<rparr>
   \<and> (identity_check e s = Inr u \<and> i \<in> set (map car_id (cars s)) \<longrightarrow>
        fst (updateCarStatus e i None (Some b) s) = Success ()
        \<and> cars (snd (updateCarStatus e i None (Some b) s))
            = map (\<lambda>c. if car_id c = i then c\<lparr>featured := b\<rparr> else c) (cars s)
        \<and> fst (updateCarStatus e i (Some st) None s) = Success ()
        \<and> cars (snd (updateCarStatus e i (Some st) None s))
            = map (\<lambda>c. if car_id c = i then c\<lparr>status := st\<rparr> else c) (cars s))"
proof (intro conjI impI)
  show f: "build_updateData None (Some b) = \<lparr>upd_status = None, upd_featured = Some b\<rparr>"
    by (simp add: build_updateData_def)
  show g: "build_updateData (Some st) None = \<lparr>upd_status = Some st, upd_featured = None\<rparr>"
    by (simp add: build_updateData_def)
  show "map status (cars (snd (updateCarStatus e i None (Some b) s))) = map status (cars s)"
    by (simp add: cars_updateCarStatus f status_apply_featured comp_def if_distrib cong: if_cong)
  show "map featured (cars (snd (updateCarStatus e i (Some st) None s))) = map featured (cars s)"
    by (simp add: cars_updateCarStatus g featured_apply_status comp_def if_distrib cong: if_cong)
  assume h: "identity_check e s = Inr u \<and> i \<in> set (map car_id (cars s))"
  then show "fst (updateCarStatus e i None (Some b) s) = Success ()"
    by (simp add: updateCarStatus_def updateCarStatus_try_def db_car_update_def)
  from h show "fst (updateCarStatus e i (Some st) None s) = Success ()"
    by (simp add: updateCarStatus_def updateCarStatus_try_def db_car_update_def)
  from h show "cars (snd (updateCarStatus e i None (Some b) s))
      = map (\<lambda>c. if car_id c = i then c\<lparr>featured := b\<rparr> else c) (cars s)"
    by (simp add: cars_updateCarStatus f apply_update_def)
  from h show "cars (snd (updateCarStatus e i (Some st) None s))
      = map (\<lambda>c. if car_id c = i then c\<lparr>status := st\<rparr> else c) (cars s)"
    by (simp add: cars_updateCarStatus g apply_update_def)
qed

theorem updateCarStatus_partial_witness:
  "identity_check demo_env stocked_state = Inr ''user_1''
   \<and> ''c1'' \<in> set (map car_id (cars stocked_state))
   \<and> fst (updateCarStatus demo_env ''c1'' None (Some False) stocked_state) = Success ()
   \<and> cars (snd (updateCarStatus demo_env ''c1'' None (Some False) stocked_state))
       = [demo_car\<lparr>featured := False\<rparr>]
   \<and> map status (cars (snd (updateCarStatus demo_env ''c1'' None (Some False) stocked_state)))
       = [''AVAILABLE'']
   \<and> cars (snd (updateCarStatus demo_env ''c1'' (Some ''SOLD'') None stocked_state))
       = [demo_car\<lparr>status := ''SOLD''\<rparr>]
   \<and> map featured (cars (snd (updateCarStatus demo_env ''c1'' (Some ''SOLD'') None stocked_state)))
       = [True]"
proof -
  have i: "identity_check demo_env stocked_state = Inr ''user_1''"
    by (simp add: identity_check_def falsy_def demo_env_def stocked_state_def demo_state_def)
  have c: "car_id demo_car = ''c1''" "status demo_car = ''AVAILABLE''" "featured demo_car = True"
    by (simp_all add: demo_car_def car_data.extend_def car.fields_def demo_data_def)
  have m: "''c1'' \<in> set (map car_id (cars stocked_state))"
    by (simp add: stocked_state_def c)
  have s: "cars stocked_state = [demo_car]"
    by (simp add: stocked_state_def)
  show ?thesis
    using updateCarStatus_partial
      [of demo_env "''c1''" False stocked_state "''SOLD''" "''user_1''"] i m s c
    by simp
qed

subsection \<open>getFeaturedCars\<close>

lemma sorted_orderBy_createdAt_desc:
  "sorted_wrt (\<lambda>a b. createdAt b \<le> createdAt a) (orderBy_createdAt_desc rows)"
proof -
  have "sorted (map createdAt (sort_key createdAt rows))"
    by (rule sorted_sort_key)
  then have "sorted_wrt (\<lambda>a b. createdAt a \<le> createdAt b) (sort_key createdAt rows)"
    by (simp add: sorted_wrt_map)
  then show ?thesis
    by (simp add: orderBy_createdAt_desc_def sorted_wrt_rev)
qed

lemma set_findMany_featured:
  "set (findMany_featured n s)
     \<subseteq> {c \<in> set (cars s). featured c \<and> status c = ''AVAILABLE''}"
proof -
  have "set (findMany_featured n s)
      \<subseteq> set (orderBy_createdAt_desc
            (filter (\<lambda>c. featured c = True \<and> status c = ''AVAILABLE'') (cars s)))"
    unfolding findMany_featured_def by (rule set_take_subset)
  then show ?thesis
    by (auto simp: orderBy_createdAt_desc_def)
qed

text \<open>
  C10. getFeaturedCars(limit) returns the serialized form of at most \<open>limit\<close> rows (3
  when the argument is left out); each of these rows is a row of the table with featured
  true and status "AVAILABLE"; they come latest first; and the result depends neither
  on the session nor on the user table: no identity check is made.
\<close>

theorem getFeaturedCars_result:
  "getFeaturedCars ser e limit s
     = map ser (findMany_featured (case limit of None \<Rightarrow> 3 | Some n \<Rightarrow> n) s)
   \<and> length (getFeaturedCars ser e limit s) \<le> (case limit of None \<Rightarrow> 3 | Some n \<Rightarrow> n)
   \<and> (\<forall>c\<in>set (findMany_featured n s).
         c \<in> set (cars s) \<and> featured c = True \<and> status c = ''AVAILABLE'')
   \<and> sorted_wrt (\<lambda>a b. createdAt b \<le> createdAt a) (findMany_featured n s)
   \<and> getFeaturedCars ser (e\<lparr>auth_userId := a\<rparr>) limit (s\<lparr>users := us\<rparr>)
       = getFeaturedCars ser e limit s"
proof (intro conjI)
  show "getFeaturedCars ser e limit s
     = map ser (findMany_featured (case limit of None \<Rightarrow> 3 | Some n \<Rightarrow> n) s)"
    by (simp add: getFeaturedCars_def)
  show "length (getFeaturedCars ser e limit s) \<le> (case limit of None \<Rightarrow> 3 | Some n \<Rightarrow> n)"
    by (simp add: getFeaturedCars_def findMany_featured_def)
  show "\<forall>c\<in>set (findMany_featured n s).
         c \<in> set (cars s) \<and> featured c = True \<and> status c = ''AVAILABLE''"
    using set_findMany_featured [of n s] by auto
  show "sorted_wrt (\<lambda>a b. createdAt b \<le> createdAt a) (findMany_featured n s)"
    unfolding findMany_featured_def
    by (rule sorted_wrt_take) (rule sorted_orderBy_createdAt_desc)
  show "getFeaturedCars ser (e\<lparr>auth_userId := a\<rparr>) limit (s\<lparr>users := us\<rparr>)
       = getFeaturedCars ser e limit s"
    by (simp add: getFeaturedCars_def findMany_featured_def)
qed

lemma findMany_featured_showroom:
  "map car_id (findMany_featured 3 showroom_state) = [''c'', ''f'', ''e'']"
  by (simp add: findMany_featured_def showroom_state_def orderBy_createdAt_desc_def
        demo_car_def car_data.extend_def car.fields_def demo_data_def demo_state_def)

theorem getFeaturedCars_result_witness:
  "getFeaturedCars car_id (demo_env\<lparr>auth_userId := None\<rparr>) None showroom_state
     = [''c'', ''f'', ''e'']
   \<and> map featured (findMany_featured 3 showroom_state) = [True, True, True]
   \<and> map status (findMany_featured 3 showroom_state)
       = [''AVAILABLE'', ''AVAILABLE'', ''AVAILABLE'']
   \<and> map createdAt (findMany_featured 3 showroom_state) = [30, 25, 20]"
proof -
  have f: "map featured (findMany_featured 3 showroom_state) = [True, True, True]"
    "map status (findMany_featured 3 showroom_state)
       = [''AVAILABLE'', ''AVAILABLE'', ''AVAILABLE'']"
    by (simp_all add: findMany_featured_def showroom_state_def orderBy_createdAt_desc_def
        demo_car_def car_data.extend_def car.fields_def demo_data_def demo_state_def)
  have t: "map createdAt (findMany_featured 3 showroom_state) = [30, 25, 20]"
    by (simp add: findMany_featured_def showroom_state_def orderBy_createdAt_desc_def
        demo_car_def car_data.extend_def car.fields_def demo_data_def demo_state_def)
  show ?thesis
    using getFeaturedCars_result
      [of car_id "demo_env\<lparr>auth_userId := None\<rparr>" None showroom_state 3]
      findMany_featured_showroom t f
    by simp
qed

end
